theory Spec2Isabelle
  imports Complex_Main
begin

section \<open>Model configuration registry (src/lib/config/models.ts)\<close>

text \<open>
  Only the fields of a \<open>ModelConfig\<close> that the dispatch client reads are kept:
  \<open>id\<close>, \<open>provider\<close>, \<open>capabilities.contextWindow\<close>, \<open>pricing.inputTokens\<close>,
  \<open>pricing.outputTokens\<close>, \<open>pricing.tier\<close> and \<open>enabled\<close>.
  Prices are JavaScript numbers written as decimal literals; a price is kept as the exact
  rational of its literal. The client only orders prices, and rounding a literal to the
  nearest double keeps the order. The arithmetic \<open>calculateCost\<close> does on them is kept as
  an expression that is not evaluated (\<open>js_number\<close>), so that no rounding is asserted.
\<close>

datatype pricing_tier = Free | Standard | Premium

record ModelConfig =
  cfg_id :: string
  cfg_provider :: string
  cfg_contextWindow :: nat
  cfg_inputTokens :: rat
  cfg_outputTokens :: rat
  cfg_tier :: pricing_tier
  cfg_enabled :: bool

text \<open>
  \<open>Record<string, ModelConfig>\<close>: an association list in insertion order, which is the
  order \<open>Object.values\<close> enumerates (no key of the table is an integer index).
\<close>

type_synonym model_table = "(string \<times> ModelConfig) list"

definition mk_model ::
  "string \<Rightarrow> string \<Rightarrow> nat \<Rightarrow> rat \<Rightarrow> rat \<Rightarrow> pricing_tier \<Rightarrow> string \<times> ModelConfig" where
  "mk_model i p cw pin pout t =
     (i, \<lparr>cfg_id = i, cfg_provider = p, cfg_contextWindow = cw, cfg_inputTokens = pin,
          cfg_outputTokens = pout, cfg_tier = t, cfg_enabled = True\<rparr>)"

definition modelConfigs :: model_table where
  "modelConfigs =
    [mk_model ''gpt-4o'' ''openai'' 128000 (5 / 1000) (15 / 1000) Premium,
     mk_model ''gpt-4o-mini'' ''openai'' 128000 (15 / 100000) (6 / 10000) Standard,
     mk_model ''claude-3-5-sonnet-20241022'' ''anthropic'' 200000 (3 / 1000) (15 / 1000) Premium,
     mk_model ''claude-3-5-haiku-20241022'' ''anthropic'' 200000 (8 / 10000) (4 / 1000) Standard,
     mk_model ''grok-beta'' ''xai'' 131072 (5 / 1000) (15 / 1000) Premium,
     mk_model ''meta-llama/llama-3.2-90b-vision-instruct'' ''openrouter'' 131072
        (9 / 10000) (9 / 10000) Premium,
     mk_model ''anthropic/claude-3.5-sonnet'' ''openrouter'' 200000 (3 / 1000) (15 / 1000) Premium,
     mk_model ''llama-3.1-sonar-large-128k-online'' ''perplexity'' 127072
        (1 / 1000) (1 / 1000) Premium,
     mk_model ''llama-3.1-sonar-small-128k-online'' ''perplexity'' 127072
        (2 / 10000) (2 / 10000) Standard]"

definition Object_values :: "model_table \<Rightarrow> ModelConfig list" where
  "Object_values tbl = map snd tbl"

text \<open>
  Thrown values: \<open>Error\<close> objects made by the code, and the \<open>TypeError\<close> the engine throws
  when a property of \<open>undefined\<close> is read (the message is V8's).
\<close>

datatype error = Error string | TypeError string

fun message :: "error \<Rightarrow> string" where
  "message (Error m) = m"
| "message (TypeError m) = m"

definition reading_undefined :: "string \<Rightarrow> error" where
  "reading_undefined name =
     TypeError (''Cannot read properties of undefined (reading '' @ [CHR 0x27] @ name @
                [CHR 0x27] @ '')'')"

text \<open>
  \<open>modelConfigs[id]\<close> is a property access on an object literal: an id that is a key of
  the table gives its entry; an id that is no key but names a property inherited from
  \<open>Object.prototype\<close> gives that property (a function, or the prototype object itself
  for \<open>__proto__\<close>), which is truthy and has none of the properties \<open>id\<close>, \<open>provider\<close>,
  \<open>capabilities\<close>, \<open>pricing\<close>, \<open>enabled\<close>; any other id gives \<open>undefined\<close>.
\<close>

definition Object_prototype :: "string list" where
  "Object_prototype =
     [''constructor'', ''__defineGetter__'', ''__defineSetter__'', ''hasOwnProperty'',
      ''__lookupGetter__'', ''__lookupSetter__'', ''isPrototypeOf'', ''propertyIsEnumerable'',
      ''toString'', ''valueOf'', ''__proto__'', ''toLocaleString'']"

datatype table_entry = Undefined | Own ModelConfig | Inherited

definition property_of :: "model_table \<Rightarrow> string \<Rightarrow> table_entry" where
  "property_of tbl modelId =
     (case map_of tbl modelId of
        Some config \<Rightarrow> Own config
      | None \<Rightarrow> if modelId \<in> set Object_prototype then Inherited else Undefined)"

text \<open>
  \<open>calculateCost\<close>. The result is the expression the code evaluates in double arithmetic.
  For an inherited name \<open>model.pricing\<close> is \<open>undefined\<close> and reading \<open>inputTokens\<close> from it
  throws.
\<close>

datatype js_number =
    NumLit rat
  | NumAdd js_number js_number
  | NumMul js_number js_number
  | NumDiv js_number js_number

definition calculateCost :: "model_table \<Rightarrow> string \<Rightarrow> nat \<Rightarrow> nat \<Rightarrow> error + js_number" where
  "calculateCost tbl modelId inputTokens outputTokens =
     (case property_of tbl modelId of
        Undefined \<Rightarrow> Inr (NumLit 0)
      | Inherited \<Rightarrow> Inl (reading_undefined ''inputTokens'')
      | Own model \<Rightarrow>
          (let inputCost = NumMul (NumDiv (NumLit (of_nat inputTokens)) (NumLit 1000))
                             (NumLit (cfg_inputTokens model));
               outputCost = NumMul (NumDiv (NumLit (of_nat outputTokens)) (NumLit 1000))
                              (NumLit (cfg_outputTokens model))
           in Inr (NumAdd inputCost outputCost)))"

section \<open>Provider registry (AIProviderRegistry)\<close>

text \<open>
  The registry keeps a map from provider name to adapter and the set of initialised names.
  The adapters themselves are the outside world (see \<open>backend\<close> below); the registry
  model keeps the names.
\<close>

record AIProviderRegistry =
  providers :: "string list"
  initialized :: "string list"

definition getProvider :: "AIProviderRegistry \<Rightarrow> string \<Rightarrow> error + string" where
  "getProvider reg providerName =
     (if providerName \<notin> set (providers reg)
        then Inl (Error (''Provider '' @ providerName @ '' not found''))
      else if providerName \<notin> set (initialized reg)
        then Inl (Error (''Provider '' @ providerName @ '' not initialized''))
      else Inr providerName)"

text \<open>
  \<open>getProviderForModel\<close>. For an inherited name \<open>modelConfig.provider\<close> is \<open>undefined\<close>, no
  provider is registered under it, and the template literal prints it as \<open>undefined\<close>.
\<close>

definition getProviderForModel ::
  "model_table \<Rightarrow> AIProviderRegistry \<Rightarrow> string \<Rightarrow> error + string" where
  "getProviderForModel tbl reg modelId =
     (case property_of tbl modelId of
        Undefined \<Rightarrow> Inl (Error (''Model '' @ modelId @ '' not found''))
      | Inherited \<Rightarrow> Inl (Error ''Provider undefined not found'')
      | Own modelConfig \<Rightarrow> getProvider reg (cfg_provider modelConfig))"

section \<open>Dispatch client (src/lib/ai/client.ts)\<close>

record AIClientOptions =
  maxRetries :: nat
  retryDelay :: nat
  fallbackModels :: "string list"
  enableFallback :: bool

subsection \<open>Candidate list\<close>

text \<open>
  \<open>Array.prototype.sort\<close> is stable and the comparator \<open>a.pricing.inputTokens -
  b.pricing.inputTokens\<close> orders by the key, so the sort is \<open>sort_key\<close> (stable insertion
  sort). \<open>contextWindow >= preferred.contextWindow * 0.5\<close> on integers is
  \<open>pcw \<le> 2 * cw\<close>.
\<close>

definition sameProviderModels :: "model_table \<Rightarrow> ModelConfig \<Rightarrow> string list" where
  "sameProviderModels tbl preferredConfig =
     map cfg_id
       (sort_key cfg_inputTokens
          (filter (\<lambda>config.
               cfg_provider config = cfg_provider preferredConfig \<and>
               cfg_id config \<noteq> cfg_id preferredConfig \<and>
               cfg_enabled config \<and>
               cfg_tier config \<noteq> Premium)
             (Object_values tbl)))"

definition crossProviderModels :: "model_table \<Rightarrow> ModelConfig \<Rightarrow> string list" where
  "crossProviderModels tbl preferredConfig =
     map cfg_id
       (sort_key cfg_inputTokens
          (filter (\<lambda>config.
               cfg_provider config \<noteq> cfg_provider preferredConfig \<and>
               cfg_enabled config \<and>
               cfg_contextWindow preferredConfig \<le> 2 * cfg_contextWindow config)
             (Object_values tbl)))"

text \<open>
  \<open>getAutomaticFallbacks(preferredConfig: any)\<close>. For a table entry both filters read its
  fields. For an inherited property \<open>preferredConfig.provider\<close> is \<open>undefined\<close>: the first
  filter rejects every entry at its first conjunct; the second filter passes the first
  conjunct for every entry and, at the first enabled entry, reads
  \<open>preferredConfig.capabilities.contextWindow\<close>, which throws. For \<open>undefined\<close> the first
  filter throws at the first entry.
\<close>

definition getAutomaticFallbacks :: "model_table \<Rightarrow> table_entry \<Rightarrow> error + string list" where
  "getAutomaticFallbacks tbl preferredConfig =
     (case preferredConfig of
        Own config \<Rightarrow>
          (let fallbacks = [];
               fallbacks = fallbacks @ take 2 (sameProviderModels tbl config);
               fallbacks = fallbacks @ take 2 (crossProviderModels tbl config)
           in Inr fallbacks)
      | Inherited \<Rightarrow>
          if list_ex cfg_enabled (Object_values tbl)
            then Inl (reading_undefined ''contextWindow'')
          else Inr []
      | Undefined \<Rightarrow>
          if Object_values tbl = [] then Inr [] else Inl (reading_undefined ''provider''))"

text \<open>
  A JavaScript \<open>Set\<close> iterates in insertion order; adding a member that is already
  present changes nothing. \<open>[...new Set(models)]\<close> is \<open>Set_of models\<close>.
\<close>

definition Set_add :: "'a list \<Rightarrow> 'a \<Rightarrow> 'a list" where
  "Set_add s x = (if x \<in> set s then s else s @ [x])"

definition Set_of :: "'a list \<Rightarrow> 'a list" where
  "Set_of xs = foldl Set_add [] xs"

text \<open>
  \<open>getModelsToTry\<close>. \<open>if (preferredConfig)\<close> is false for \<open>undefined\<close> only; what
  \<open>getAutomaticFallbacks\<close> throws is not caught here.
\<close>

definition getModelsToTry ::
  "AIClientOptions \<Rightarrow> model_table \<Rightarrow> string \<Rightarrow> error + string list" where
  "getModelsToTry opts tbl preferredModelId =
     (let models = [preferredModelId]
      in if enableFallback opts then
           (let models = models @ fallbackModels opts;
                preferredConfig = property_of tbl preferredModelId
            in if preferredConfig = Undefined then Inr (Set_of models)
               else (case getAutomaticFallbacks tbl preferredConfig of
                       Inl e \<Rightarrow> Inl e
                     | Inr fallbacks \<Rightarrow> Inr (Set_of (models @ fallbacks))))
         else Inr (Set_of models))"

subsection \<open>Buffered generation with retry and fallback\<close>

record usage_info =
  inputTokens :: nat
  outputTokens :: nat
  cost :: "js_number option"

record AIResponse =
  content :: string
  usage :: usage_info
  model :: string
  finishReason :: string
  response_cost :: "js_number option"

text \<open>
  The adapters are the outside world. For one request, \<open>backend calls modelId\<close> is what
  \<open>provider.generateText({...request, modelId})\<close> does when \<open>calls\<close> lists the model ids
  of the adapter calls made so far: it returns a response or throws an \<open>Error\<close>.
  Every function below returns the extended list of calls next to its result, so the number of
  attempts against each model can be read off.
\<close>

type_synonym backend = "string list \<Rightarrow> string \<Rightarrow> error + AIResponse"

text \<open>
  \<open>executeWithRetry\<close>: the \<open>for (attempt = 0; attempt <= maxRetries; attempt++)\<close> loop.
  \<open>lastError\<close> is \<open>Error | null\<close>; the thrown value after the loop is \<open>lastError\<close>
  itself. The back-off sleep between attempts changes no value and is left out.
\<close>

function executeWithRetry_loop ::
  "backend \<Rightarrow> string \<Rightarrow> nat \<Rightarrow> nat \<Rightarrow> error option \<Rightarrow> string list
     \<Rightarrow> (error option + AIResponse) \<times> string list" where
  "executeWithRetry_loop operation modelId maxRetries' attempt lastError calls =
     (if attempt \<le> maxRetries' then
        (case operation calls modelId of
           Inr response \<Rightarrow> (Inr response, calls @ [modelId])
         | Inl err \<Rightarrow>
             executeWithRetry_loop operation modelId maxRetries' (attempt + 1) (Some err)
               (calls @ [modelId]))
      else (Inl lastError, calls))"
  by pat_completeness auto
termination
  by (relation "measure (\<lambda>(operation, modelId, maxRetries', attempt, lastError, calls).
        Suc maxRetries' - attempt)") auto

definition executeWithRetry ::
  "backend \<Rightarrow> string \<Rightarrow> nat \<Rightarrow> string list \<Rightarrow> (error option + AIResponse) \<times> string list" where
  "executeWithRetry operation modelId maxRetries' calls =
     executeWithRetry_loop operation modelId maxRetries' 0 None calls"

text \<open>\<open>throw lastError || new Error("All models failed")\<close>\<close>

definition throw_lastError :: "error option \<Rightarrow> error" where
  "throw_lastError lastError =
     (case lastError of None \<Rightarrow> Error ''All models failed'' | Some e \<Rightarrow> e)"

text \<open>
  The \<open>for (const modelId of modelsToTry)\<close> loop of \<open>generateText\<close>. \<open>continue\<close> is
  the recursive call on the remaining candidates, \<open>break\<close> ends the loop and reaches the
  final \<open>throw\<close>. For an inherited name \<open>modelConfig.enabled\<close> is \<open>undefined\<close>, so the
  candidate is skipped like an unknown one. The \<open>try\<close> block holds the provider lookup,
  the retried adapter call and \<open>calculateCost\<close>.
\<close>

fun generateText_loop ::
  "AIClientOptions \<Rightarrow> model_table \<Rightarrow> AIProviderRegistry \<Rightarrow> backend \<Rightarrow> string \<Rightarrow>
     string list \<Rightarrow> error option \<Rightarrow> string list \<Rightarrow> (error + AIResponse) \<times> string list" where
  "generateText_loop opts tbl reg operation request_modelId [] lastError calls =
     (Inl (throw_lastError lastError), calls)"
| "generateText_loop opts tbl reg operation request_modelId (modelId # rest) lastError calls =
     (case property_of tbl modelId of
        Undefined \<Rightarrow>
          generateText_loop opts tbl reg operation request_modelId rest lastError calls
      | Inherited \<Rightarrow>
          generateText_loop opts tbl reg operation request_modelId rest lastError calls
      | Own modelConfig \<Rightarrow>
          if \<not> cfg_enabled modelConfig
            then generateText_loop opts tbl reg operation request_modelId rest lastError calls
          else
            (case (case getProviderForModel tbl reg modelId of
                     Inl e \<Rightarrow> (Inl (Some e), calls)
                   | Inr provider \<Rightarrow>
                       (case executeWithRetry operation modelId (maxRetries opts) calls of
                          (Inl err, calls') \<Rightarrow> (Inl err, calls')
                        | (Inr response, calls') \<Rightarrow>
                            (case calculateCost tbl modelId (inputTokens (usage response))
                                    (outputTokens (usage response)) of
                               Inl e \<Rightarrow> (Inl (Some e), calls')
                             | Inr cost' \<Rightarrow>
                                 (Inr (response\<lparr>response_cost := Some cost',
                                                model := modelId\<rparr>), calls')))) of
               (Inr response, calls') \<Rightarrow> (Inr response, calls')
             | (Inl err, calls') \<Rightarrow>
                 if modelId = request_modelId \<and> enableFallback opts
                   then generateText_loop opts tbl reg operation request_modelId rest err calls'
                 else (Inl (throw_lastError err), calls')))"

text \<open>\<open>getModelsToTry\<close> is called before the loop, outside every \<open>try\<close>.\<close>

definition generateText ::
  "AIClientOptions \<Rightarrow> model_table \<Rightarrow> AIProviderRegistry \<Rightarrow> backend \<Rightarrow> string \<Rightarrow>
     (error + AIResponse) \<times> string list" where
  "generateText opts tbl reg operation request_modelId =
     (case getModelsToTry opts tbl request_modelId of
        Inl e \<Rightarrow> (Inl e, [])
      | Inr modelsToTry \<Rightarrow>
          generateText_loop opts tbl reg operation request_modelId modelsToTry None [])"

subsection \<open>Streamed generation\<close>

datatype chunk_type = Text | ToolCall | ToolResult | Done | ErrorChunk

record AIStreamChunk =
  chunk_type :: chunk_type
  chunk_content :: "string option"
  delta :: "string option"
  chunk_usage :: "usage_info option"
  chunk_error :: "string option"

text \<open>
  For one request, \<open>provider_stream calls modelId\<close> is the asynchronous sequence that
  \<open>provider.streamText({...request, modelId})\<close> produces when \<open>calls\<close> lists the models
  whose streams were opened so far: the chunks it yields, and the error it throws after
  them, if any.
\<close>

type_synonym stream_backend = "string list \<Rightarrow> string \<Rightarrow> AIStreamChunk list \<times> error option"

text \<open>
  The adapters (src/lib/ai/providers). \<open>streamText\<close> of \<open>AnthropicProvider\<close>, and with the
  same body of \<open>PerplexityProvider\<close> and \<open>XAIProvider\<close>: inside one \<open>try\<close>, a \<open>text\<close> chunk
  for every delta of the SDK's \<open>textStream\<close>, then the awaited usage in a \<open>done\<close> chunk;
  the \<open>catch\<close> yields one \<open>error\<close> chunk with the message of what was thrown. Nothing is
  thrown to the consumer. \<open>GroqProvider.streamText\<close> reads its deltas from a \<open>fetch\<close> body
  inside the same \<open>try\<close>/\<open>catch\<close>. The SDK's stream is given by its deltas and by how it
  ends: the error it throws, or the usage.
\<close>

definition text_chunk :: "string \<Rightarrow> AIStreamChunk" where
  "text_chunk s =
     \<lparr>chunk_type = Text, chunk_content = None, delta = Some s, chunk_usage = None,
      chunk_error = None\<rparr>"

definition done_chunk :: "nat \<Rightarrow> nat \<Rightarrow> AIStreamChunk" where
  "done_chunk promptTokens completionTokens =
     \<lparr>chunk_type = Done, chunk_content = None, delta = None,
      chunk_usage = Some \<lparr>inputTokens = promptTokens, outputTokens = completionTokens,
                           cost = None\<rparr>,
      chunk_error = None\<rparr>"

definition caught_chunk :: "error \<Rightarrow> AIStreamChunk" where
  "caught_chunk e =
     \<lparr>chunk_type = ErrorChunk, chunk_content = None, delta = None, chunk_usage = None,
      chunk_error = Some (message e)\<rparr>"

type_synonym sdk_stream = "string list \<times> (error + nat \<times> nat)"

definition AnthropicProvider_streamText :: "sdk_stream \<Rightarrow> AIStreamChunk list \<times> error option" where
  "AnthropicProvider_streamText result =
     (case result of
        (textStream, Inr (promptTokens, completionTokens)) \<Rightarrow>
          (map text_chunk textStream @ [done_chunk promptTokens completionTokens], None)
      | (textStream, Inl e) \<Rightarrow>
          (map text_chunk textStream @ [caught_chunk e], None))"

text \<open>
  The body of \<open>for await (const chunk of provider.streamText(...))\<close>: a \<open>done\<close> chunk
  with usage is yielded with its cost added, any other chunk as it is. \<open>forward_chunks\<close>
  is the loop over the chunks of a stream: what is yielded, and what \<open>calculateCost\<close>
  threw, if it did.
\<close>

definition forward_chunk ::
  "model_table \<Rightarrow> string \<Rightarrow> AIStreamChunk \<Rightarrow> error + AIStreamChunk" where
  "forward_chunk tbl modelId chunk =
     (case chunk_usage chunk of
        Some u \<Rightarrow>
          if chunk_type chunk = Done
            then (case calculateCost tbl modelId (inputTokens u) (outputTokens u) of
                    Inl e \<Rightarrow> Inl e
                  | Inr cost' \<Rightarrow> Inr (chunk\<lparr>chunk_usage := Some (u\<lparr>cost := Some cost'\<rparr>)\<rparr>))
          else Inr chunk
      | None \<Rightarrow> Inr chunk)"

fun forward_chunks ::
  "model_table \<Rightarrow> string \<Rightarrow> AIStreamChunk list \<Rightarrow> AIStreamChunk list \<times> error option" where
  "forward_chunks tbl modelId [] = ([], None)"
| "forward_chunks tbl modelId (chunk # chunks) =
     (case forward_chunk tbl modelId chunk of
        Inl e \<Rightarrow> ([], Some e)
      | Inr chunk' \<Rightarrow>
          (case forward_chunks tbl modelId chunks of
             (yielded, thrown) \<Rightarrow> (chunk' # yielded, thrown)))"

text \<open>\<open>{ type: "error", error: lastError?.message || "All models failed" }\<close>\<close>

definition error_chunk :: "error option \<Rightarrow> AIStreamChunk" where
  "error_chunk lastError =
     \<lparr>chunk_type = ErrorChunk, chunk_content = None, delta = None, chunk_usage = None,
      chunk_error =
        Some (case lastError of
                None \<Rightarrow> ''All models failed''
              | Some e \<Rightarrow> if message e = [] then ''All models failed'' else message e)\<rparr>"

text \<open>
  The candidate loop of \<open>streamText\<close>: the chunks the caller receives and the streams
  opened. A stream that ends without throwing ends the call (\<open>return\<close>), whatever its
  chunks were; the \<open>catch\<close> is reached by what the provider lookup, the stream or
  \<open>calculateCost\<close> throws.
\<close>

fun streamText_loop ::
  "AIClientOptions \<Rightarrow> model_table \<Rightarrow> AIProviderRegistry \<Rightarrow> stream_backend \<Rightarrow> string \<Rightarrow>
     string list \<Rightarrow> error option \<Rightarrow> string list \<Rightarrow> AIStreamChunk list \<times> string list" where
  "streamText_loop opts tbl reg provider_stream request_modelId [] lastError calls =
     ([error_chunk lastError], calls)"
| "streamText_loop opts tbl reg provider_stream request_modelId (modelId # rest) lastError calls =
     (case property_of tbl modelId of
        Undefined \<Rightarrow>
          streamText_loop opts tbl reg provider_stream request_modelId rest lastError calls
      | Inherited \<Rightarrow>
          streamText_loop opts tbl reg provider_stream request_modelId rest lastError calls
      | Own modelConfig \<Rightarrow>
          if \<not> cfg_enabled modelConfig
            then streamText_loop opts tbl reg provider_stream request_modelId rest lastError calls
          else
            (case (case getProviderForModel tbl reg modelId of
                     Inl e \<Rightarrow> ([], Some e, calls)
                   | Inr provider \<Rightarrow>
                       (case forward_chunks tbl modelId (fst (provider_stream calls modelId)) of
                          (yielded, Some e) \<Rightarrow> (yielded, Some e, calls @ [modelId])
                        | (yielded, None) \<Rightarrow>
                            (yielded, snd (provider_stream calls modelId), calls @ [modelId]))) of
               (yielded, None, calls') \<Rightarrow> (yielded, calls')
             | (yielded, Some err, calls') \<Rightarrow>
                 if modelId = request_modelId \<and> enableFallback opts
                   then (case streamText_loop opts tbl reg provider_stream request_modelId rest
                                (Some err) calls' of
                           (later, calls'') \<Rightarrow> (yielded @ later, calls''))
                 else (yielded @ [error_chunk (Some err)], calls')))"

text \<open>
  \<open>streamText\<close>: \<open>getModelsToTry\<close> runs first, outside the \<open>try\<close>; what it throws is thrown
  to the consumer of the generator before any chunk.
\<close>

definition streamText ::
  "AIClientOptions \<Rightarrow> model_table \<Rightarrow> AIProviderRegistry \<Rightarrow> stream_backend \<Rightarrow> string \<Rightarrow>
     (AIStreamChunk list \<times> error option) \<times> string list" where
  "streamText opts tbl reg provider_stream request_modelId =
     (case getModelsToTry opts tbl request_modelId of
        Inl e \<Rightarrow> (([], Some e), [])
      | Inr modelsToTry \<Rightarrow>
          (case streamText_loop opts tbl reg provider_stream request_modelId modelsToTry
                  None [] of
             (yielded, calls) \<Rightarrow> ((yielded, None), calls)))"

subsection \<open>Concrete clients, registries and backends\<close>

text \<open>The options of the constructor's defaults and of the global \<open>aiClient\<close>.\<close>

definition default_options :: AIClientOptions where
  "default_options =
     \<lparr>maxRetries = 3, retryDelay = 1000, fallbackModels = [], enableFallback = True\<rparr>"

definition aiClient_options :: AIClientOptions where
  "aiClient_options =
     \<lparr>maxRetries = 3, retryDelay = 1000,
      fallbackModels = [''gpt-4o-mini'', ''claude-3-5-haiku-20241022'', ''llama-3.1-8b-instant''],
      enableFallback = True\<rparr>"

definition two_fallbacks :: AIClientOptions where
  "two_fallbacks =
     \<lparr>maxRetries = 3, retryDelay = 1000,
      fallbackModels = [''gpt-4o-mini'', ''claude-3-5-haiku-20241022''],
      enableFallback = True\<rparr>"

text \<open>The six providers the registry's constructor registers, all initialised.\<close>

definition aiRegistry_ready :: AIProviderRegistry where
  "aiRegistry_ready =
     \<lparr>providers = [''openai'', ''anthropic'', ''xai'', ''openrouter'', ''perplexity'', ''groq''],
      initialized = [''openai'', ''anthropic'', ''xai'', ''openrouter'', ''perplexity'', ''groq'']\<rparr>"

definition example_response :: AIResponse where
  "example_response =
     \<lparr>content = ''ok'', usage = \<lparr>inputTokens = 1000, outputTokens = 1000, cost = None\<rparr>,
      model = ''unset'', finishReason = ''stop'', response_cost = None\<rparr>"

text \<open>A backend on which only Claude 3.5 Haiku answers; every other model throws.\<close>

definition only_haiku_answers :: backend where
  "only_haiku_answers calls modelId =
     (if modelId = ''claude-3-5-haiku-20241022'' then Inr example_response
      else Inl (Error ''unavailable''))"

text \<open>
  A streaming backend of adapters of the form above: for Claude 3.5 Sonnet the SDK's stream
  gives two deltas and then fails; for every other model it gives one delta and ends with
  its usage.
\<close>

definition resets_after_two :: stream_backend where
  "resets_after_two calls modelId =
     (if modelId = ''claude-3-5-sonnet-20241022''
        then AnthropicProvider_streamText ([''Hel'', ''lo''], Inl (Error ''connection reset''))
      else AnthropicProvider_streamText ([''Hi''], Inr (1, 1)))"

section \<open>Guardrail types (src/lib/guardrails/types.ts)\<close>

datatype action = Allow | Block | Modify | Flag

datatype severity = Low | Medium | High | Critical

record GuardrailResult =
  action :: action
  reason :: string
  originalContent :: string
  modifiedContent :: "string option"
  severity :: severity
  guardrailType :: string
  confidence :: rat

datatype user_tier = FreeTier | Pro | Enterprise

record GuardrailContext =
  ctx_userId :: "string option"
  ctx_chatId :: "string option"
  ctx_messageId :: "string option"
  ctx_modelId :: string
  ctx_provider :: string
  ctx_isStreaming :: bool
  ctx_userTier :: user_tier
  ctx_previousMessages :: "string list"

record RateLimitConfig =
  requestsPerMinute :: nat
  requestsPerHour :: nat
  tokensPerDay :: nat
  concurrentRequests :: nat

text \<open>\<open>BaseGuardrail.createResult\<close>; the first argument is \<open>this.type\<close>.\<close>

definition createResult ::
  "string \<Rightarrow> action \<Rightarrow> string \<Rightarrow> string \<Rightarrow> string option \<Rightarrow> severity \<Rightarrow> rat
     \<Rightarrow> GuardrailResult" where
  "createResult this_type action' reason' originalContent' modifiedContent' severity'
       confidence' =
     \<lparr>action = action', reason = reason', originalContent = originalContent',
      modifiedContent = modifiedContent', severity = severity', guardrailType = this_type,
      confidence = confidence'\<rparr>"

section \<open>Rate limiting guardrail (RateLimitGuardrail)\<close>

record RateLimitEntry =
  count :: nat
  tokens :: nat
  lastReset :: nat
  concurrent :: nat

text \<open>\<open>private userLimits = new Map<string, RateLimitEntry>()\<close>\<close>

type_synonym userLimits = "string \<rightharpoonup> RateLimitEntry"

definition limits :: "user_tier \<Rightarrow> RateLimitConfig" where
  "limits tier =
     (case tier of
        FreeTier \<Rightarrow> \<lparr>requestsPerMinute = 10, requestsPerHour = 100, tokensPerDay = 10000,
                     concurrentRequests = 2\<rparr>
      | Pro \<Rightarrow> \<lparr>requestsPerMinute = 60, requestsPerHour = 1000, tokensPerDay = 100000,
                concurrentRequests = 5\<rparr>
      | Enterprise \<Rightarrow> \<lparr>requestsPerMinute = 300, requestsPerHour = 10000,
                       tokensPerDay = 1000000, concurrentRequests = 20\<rparr>)"

text \<open>Template literals print numbers in decimal.\<close>

function show_nat :: "nat \<Rightarrow> string" where
  "show_nat n =
     (if n < 10 then [''0123456789'' ! n]
      else show_nat (n div 10) @ [''0123456789'' ! (n mod 10)])"
  by pat_completeness auto
termination
  by (relation "measure id") auto

text \<open>\<open>context.userId || "anonymous"\<close>: an absent or empty id is the anonymous bucket.\<close>

definition userId_of :: "GuardrailContext \<Rightarrow> string" where
  "userId_of context =
     (case ctx_userId context of
        None \<Rightarrow> ''anonymous''
      | Some u \<Rightarrow> if u = [] then ''anonymous'' else u)"

text \<open>\<open>Math.ceil(content.length / 4)\<close>\<close>

definition estimatedTokens :: "string \<Rightarrow> nat" where
  "estimatedTokens content' = (length content' + 3) div 4"

text \<open>
  \<open>checkInput\<close>. \<open>now\<close> is the value of \<open>Date.now()\<close> (milliseconds) during the call.
  Timestamps are integers; \<open>now - entry.lastReset\<close> is modelled on naturals, where a clock
  that went backwards gives 0 and, as in the source, triggers no reset. The three elapsed
  quantities are computed from \<open>entry.lastReset\<close> before any reset, as in the source.
  The entry is an object stored in the map and mutated in place, so every change made
  before a \<open>return\<close> is visible in the returned map.
\<close>

definition RateLimit_checkInput ::
  "string \<Rightarrow> GuardrailContext \<Rightarrow> nat \<Rightarrow> userLimits \<Rightarrow> GuardrailResult \<times> userLimits" where
  "RateLimit_checkInput content' context now userLimits =
     (let userId = userId_of context;
          limits' = limits (ctx_userTier context);
          entry = (case userLimits userId of
                     None \<Rightarrow> \<lparr>count = 0, tokens = 0, lastReset = now, concurrent = 0\<rparr>
                   | Some entry \<Rightarrow> entry);
          minutesSinceReset = (of_nat (now - lastReset entry) :: rat) / (1000 * 60);
          hoursSinceReset = minutesSinceReset / 60;
          daysSinceReset = hoursSinceReset / 24;
          entry = (if minutesSinceReset \<ge> 1 then entry\<lparr>count := 0, lastReset := now\<rparr>
                   else entry);
          entry = (if daysSinceReset \<ge> 1 then entry\<lparr>tokens := 0\<rparr> else entry)
      in
        if concurrent entry \<ge> concurrentRequests limits' then
          (createResult ''rate_limit'' Block
             (''Too many concurrent requests. Limit: '' @ show_nat (concurrentRequests limits'))
             content' None Medium 1,
           userLimits(userId \<mapsto> entry))
        else if count entry \<ge> requestsPerMinute limits' then
          (createResult ''rate_limit'' Block
             (''Rate limit exceeded. Limit: '' @ show_nat (requestsPerMinute limits') @
              '' requests per minute'')
             content' None Medium 1,
           userLimits(userId \<mapsto> entry))
        else if tokens entry + estimatedTokens content' > tokensPerDay limits' then
          (createResult ''rate_limit'' Block
             (''Daily token limit exceeded. Limit: '' @ show_nat (tokensPerDay limits') @
              '' tokens per day'')
             content' None Medium 1,
           userLimits(userId \<mapsto> entry))
        else
          (createResult ''rate_limit'' Allow ''Rate limit check passed'' content' None Low 1,
           userLimits(userId \<mapsto>
             entry\<lparr>count := count entry + 1,
                   tokens := tokens entry + estimatedTokens content',
                   concurrent := concurrent entry + 1\<rparr>)))"

definition RateLimit_checkOutput ::
  "string \<Rightarrow> GuardrailContext \<Rightarrow> userLimits \<Rightarrow> GuardrailResult \<times> userLimits" where
  "RateLimit_checkOutput content' context userLimits =
     (let userId = userId_of context
      in (createResult ''rate_limit'' Allow ''Output rate limit check passed'' content' None
            Low 1,
          case userLimits userId of
            None \<Rightarrow> userLimits
          | Some entry \<Rightarrow>
              if concurrent entry > 0
                then userLimits(userId \<mapsto> entry\<lparr>concurrent := concurrent entry - 1\<rparr>)
              else userLimits))"

text \<open>The entry \<open>checkInput\<close> works on after its two resets, with the elapsed-time tests
  written on the integer timestamps.\<close>

definition entry_after_resets :: "nat \<Rightarrow> RateLimitEntry option \<Rightarrow> RateLimitEntry" where
  "entry_after_resets now stored =
     (case stored of
        None \<Rightarrow> \<lparr>count = 0, tokens = 0, lastReset = now, concurrent = 0\<rparr>
      | Some e \<Rightarrow>
          \<lparr>count = (if lastReset e + 60000 \<le> now then 0 else count e),
           tokens = (if lastReset e + 86400000 \<le> now then 0 else tokens e),
           lastReset = (if lastReset e + 60000 \<le> now then now else lastReset e),
           concurrent = concurrent e\<rparr>)"

text \<open>
  One request of an identity: \<open>checkInput\<close> at time \<open>now\<close>, later the paired
  \<open>checkOutput\<close>. A run is a list of such requests, each given by its time and payload.
\<close>

definition RateLimit_request ::
  "GuardrailContext \<Rightarrow> nat \<times> string \<Rightarrow> userLimits \<Rightarrow> GuardrailResult \<times> userLimits" where
  "RateLimit_request context r userLimits =
     (case RateLimit_checkInput (snd r) context (fst r) userLimits of
        (verdict, userLimits') \<Rightarrow>
          (verdict, snd (RateLimit_checkOutput (snd r) context userLimits')))"

fun RateLimit_requests ::
  "GuardrailContext \<Rightarrow> (nat \<times> string) list \<Rightarrow> userLimits
     \<Rightarrow> GuardrailResult list \<times> userLimits" where
  "RateLimit_requests context [] userLimits = ([], userLimits)"
| "RateLimit_requests context (r # rs) userLimits =
     (case RateLimit_request context r userLimits of
        (verdict, userLimits') \<Rightarrow>
          (case RateLimit_requests context rs userLimits' of
             (verdicts, userLimits'') \<Rightarrow> (verdict # verdicts, userLimits'')))"

definition free_user :: GuardrailContext where
  "free_user =
     \<lparr>ctx_userId = Some ''u1'', ctx_chatId = None, ctx_messageId = None,
      ctx_modelId = ''gpt-4o'', ctx_provider = ''openai'', ctx_isStreaming = False,
      ctx_userTier = FreeTier, ctx_previousMessages = []\<rparr>"

text \<open>
  Successive call times of an identity that never stays away for a day: each call comes at
  least a minute and less than a day after the one before.
\<close>

fun active :: "nat \<Rightarrow> nat list \<Rightarrow> bool" where
  "active previous [] = True"
| "active previous (t # ts) =
     (previous + 60000 \<le> t \<and> t < previous + 86400000 \<and> active t ts)"

text \<open>Ten requests of four characters each, one second apart.\<close>

definition ten_pings :: "(nat \<times> string) list" where
  "ten_pings =
     [(0, ''ping''), (1000, ''ping''), (2000, ''ping''), (3000, ''ping''), (4000, ''ping''),
      (5000, ''ping''), (6000, ''ping''), (7000, ''ping''), (8000, ''ping''), (9000, ''ping'')]"

text \<open>
  One request, and fifty seconds later eleven requests two seconds apart: the window the
  first request opened ends while the eleven arrive.
\<close>

definition late_burst :: "(nat \<times> string) list" where
  "late_burst =
     [(0, ''ping''),
      (50000, ''ping''), (52000, ''ping''), (54000, ''ping''), (56000, ''ping''),
      (58000, ''ping''), (60000, ''ping''), (62000, ''ping''), (64000, ''ping''),
      (66000, ''ping''), (68000, ''ping''),
      (70000, ''ping'')]"

section \<open>Regular expressions of the guardrail rules\<close>

text \<open>
  The rules match with JavaScript regular expressions and depend on how the engine
  behaves: \<open>RegExp.prototype.test\<close> on a regular expression with the \<open>g\<close> flag starts at
  the object's \<open>lastIndex\<close> and stores the end of the match there (or 0 when nothing
  matches), and \<open>String.prototype.replace\<close> with such an expression replaces every match
  and leaves \<open>lastIndex\<close> at 0. The engine is modelled for the constructs the rules use:
  character tests, \<open>\b\<close>, concatenation, alternation, \<open>?\<close>, \<open>{n}\<close>, and \<open>*\<close> on a
  single-character test (\<open>x+\<close> is \<open>xx*\<close>, \<open>x{2,}\<close> is \<open>x{2}x*\<close>).
  Strings are lists of 8-bit characters, each standing for one UTF-16 code unit.
\<close>

datatype regex =
    Eps
  | One "char \<Rightarrow> bool"
  | WordBoundary
  | Seq regex regex
  | Alt regex regex
  | Opt regex
  | Times nat regex
  | Star "char \<Rightarrow> bool"

subsection \<open>Character tests\<close>

definition digit :: "char \<Rightarrow> bool" where
  "digit c \<longleftrightarrow> c \<in> set ''0123456789''"

definition lower_alpha :: "char \<Rightarrow> bool" where
  "lower_alpha c \<longleftrightarrow> c \<in> set ''abcdefghijklmnopqrstuvwxyz''"

definition upper_alpha :: "char \<Rightarrow> bool" where
  "upper_alpha c \<longleftrightarrow> c \<in> set ''ABCDEFGHIJKLMNOPQRSTUVWXYZ''"

text \<open>\<open>\w\<close>, \<open>\s\<close> (the white space and line terminators below 256) and \<open>.\<close>\<close>

definition word_char :: "char \<Rightarrow> bool" where
  "word_char c \<longleftrightarrow> lower_alpha c \<or> upper_alpha c \<or> digit c \<or> c = CHR ''_''"

definition white_space :: "char \<Rightarrow> bool" where
  "white_space c \<longleftrightarrow>
     c \<in> set [CHR 0x09, CHR 0x0A, CHR 0x0B, CHR 0x0C, CHR 0x0D, CHR '' '', CHR 0xA0]"

definition any_char :: "char \<Rightarrow> bool" where
  "any_char c \<longleftrightarrow> c \<noteq> CHR 0x0A \<and> c \<noteq> CHR 0x0D"

text \<open>
  A literal character under the \<open>i\<close> flag: the two cases of an ASCII letter match each
  other (canonicalisation never maps a code unit of 128 or more to an ASCII one).
\<close>

definition ascii_lower :: "char \<Rightarrow> char" where
  "ascii_lower c =
     (case map_of (zip ''ABCDEFGHIJKLMNOPQRSTUVWXYZ'' ''abcdefghijklmnopqrstuvwxyz'') c of
        Some l \<Rightarrow> l
      | None \<Rightarrow> c)"

definition lit_i :: "char \<Rightarrow> char \<Rightarrow> bool" where
  "lit_i l c \<longleftrightarrow> ascii_lower c = ascii_lower l"

definition lit :: "char \<Rightarrow> char \<Rightarrow> bool" where
  "lit l c \<longleftrightarrow> c = l"

text \<open>A string of literal characters under the \<open>i\<close> flag, and an alternation.\<close>

fun word_i :: "string \<Rightarrow> regex" where
  "word_i [] = Eps"
| "word_i [c] = One (lit_i c)"
| "word_i (c # cs) = Seq (One (lit_i c)) (word_i cs)"

fun alts :: "regex list \<Rightarrow> regex" where
  "alts [] = Eps"
| "alts [r] = r"
| "alts (r # rs) = Alt r (alts rs)"

fun seqs :: "regex list \<Rightarrow> regex" where
  "seqs [] = Eps"
| "seqs [r] = r"
| "seqs (r # rs) = Seq r (seqs rs)"

subsection \<open>Backtracking matcher\<close>

text \<open>
  A position in the subject is the character before it (if any) and the rest of the
  subject. \<open>rx_match r prev s\<close> lists the positions where a match of \<open>r\<close> starting at
  \<open>(prev, s)\<close> can end, in the order in which the backtracking engine tries them: the
  left alternative first, the optional part present first, the longest repetition first.
\<close>

definition at_boundary :: "char option \<Rightarrow> string \<Rightarrow> bool" where
  "at_boundary prev s \<longleftrightarrow>
     (case prev of None \<Rightarrow> False | Some c \<Rightarrow> word_char c) \<noteq>
     (case s of [] \<Rightarrow> False | c # _ \<Rightarrow> word_char c)"

primrec rx_size :: "regex \<Rightarrow> nat" where
  "rx_size Eps = 0"
| "rx_size (One p) = 0"
| "rx_size WordBoundary = 0"
| "rx_size (Seq r1 r2) = Suc (rx_size r1 + rx_size r2)"
| "rx_size (Alt r1 r2) = Suc (rx_size r1 + rx_size r2)"
| "rx_size (Opt r) = Suc (rx_size r)"
| "rx_size (Times n r) = Suc (n + rx_size r)"
| "rx_size (Star p) = 0"

function rx_match :: "regex \<Rightarrow> char option \<Rightarrow> string \<Rightarrow> (char option \<times> string) list" where
  "rx_match Eps prev s = [(prev, s)]"
| "rx_match (One p) prev [] = []"
| "rx_match (One p) prev (c # cs) = (if p c then [(Some c, cs)] else [])"
| "rx_match WordBoundary prev s = (if at_boundary prev s then [(prev, s)] else [])"
| "rx_match (Seq r1 r2) prev s =
     concat (map (\<lambda>(prev', s'). rx_match r2 prev' s') (rx_match r1 prev s))"
| "rx_match (Alt r1 r2) prev s = rx_match r1 prev s @ rx_match r2 prev s"
| "rx_match (Opt r) prev s = rx_match r prev s @ [(prev, s)]"
| "rx_match (Times 0 r) prev s = [(prev, s)]"
| "rx_match (Times (Suc n) r) prev s =
     concat (map (\<lambda>(prev', s'). rx_match (Times n r) prev' s') (rx_match r prev s))"
| "rx_match (Star p) prev [] = [(prev, [])]"
| "rx_match (Star p) prev (c # cs) =
     (if p c then rx_match (Star p) (Some c) cs else []) @ [(prev, c # cs)]"
  by pat_completeness auto
termination
  by (relation "measures [\<lambda>(r, prev, s). rx_size r, \<lambda>(r, prev, s). length s]") auto

text \<open>
  The leftmost match at or after a position: \<open>rx_search r prev s i\<close>, with \<open>i\<close> the index
  of the position \<open>(prev, s)\<close> in the subject, returns the start and end index.
\<close>

fun rx_search :: "regex \<Rightarrow> char option \<Rightarrow> string \<Rightarrow> nat \<Rightarrow> (nat \<times> nat) option" where
  "rx_search r prev [] i =
     (case rx_match r prev [] of [] \<Rightarrow> None | (prev', s') # _ \<Rightarrow> Some (i, i))"
| "rx_search r prev (c # cs) i =
     (case rx_match r prev (c # cs) of
        [] \<Rightarrow> rx_search r (Some c) cs (Suc i)
      | (prev', s') # _ \<Rightarrow> Some (i, i + (length (c # cs) - length s')))"

text \<open>The position at index \<open>i\<close> of a subject (\<open>i\<close> at most its length).\<close>

definition position_at :: "string \<Rightarrow> nat \<Rightarrow> char option \<times> string" where
  "position_at s i = ((if i = 0 then None else Some (s ! (i - 1))), drop i s)"

subsection \<open>\<open>RegExp\<close> objects\<close>

record RegExp =
  source :: regex
  lastIndex :: nat

definition new_RegExp :: "regex \<Rightarrow> RegExp" where
  "new_RegExp r = \<lparr>source = r, lastIndex = 0\<rparr>"

text \<open>\<open>regexp.test(s)\<close> for an object with the \<open>g\<close> flag: the result and the object after.\<close>

definition RegExp_test :: "RegExp \<Rightarrow> string \<Rightarrow> bool \<times> RegExp" where
  "RegExp_test regexp s =
     (if lastIndex regexp > length s then (False, regexp\<lparr>lastIndex := 0\<rparr>)
      else
        (case rx_search (source regexp) (fst (position_at s (lastIndex regexp)))
                (snd (position_at s (lastIndex regexp))) (lastIndex regexp) of
           None \<Rightarrow> (False, regexp\<lparr>lastIndex := 0\<rparr>)
         | Some (b, e) \<Rightarrow> (True, regexp\<lparr>lastIndex := e\<rparr>)))"

text \<open>\<open>test\<close> on a fresh object, or on one without the \<open>g\<close> flag: the search starts at 0.\<close>

definition rx_test :: "regex \<Rightarrow> string \<Rightarrow> bool" where
  "rx_test r s \<longleftrightarrow> rx_search r None s 0 \<noteq> None"

text \<open>
  \<open>s.replace(regexp, replacement)\<close> for an object with the \<open>g\<close> flag and a replacement
  without \<open>$\<close>: every match, found from left to right, is replaced; after an empty match
  the search resumes one character further. The object's \<open>lastIndex\<close> is 0 afterwards.
\<close>

function replace_from :: "regex \<Rightarrow> string \<Rightarrow> char option \<Rightarrow> string \<Rightarrow> string" where
  "replace_from r replacement prev [] =
     (case rx_match r prev [] of [] \<Rightarrow> [] | _ # _ \<Rightarrow> replacement)"
| "replace_from r replacement prev (c # cs) =
     (case rx_match r prev (c # cs) of
        [] \<Rightarrow> c # replace_from r replacement (Some c) cs
      | (prev', s') # _ \<Rightarrow>
          if length s' < length (c # cs)
            then replacement @ replace_from r replacement prev' s'
          else replacement @ c # replace_from r replacement (Some c) cs)"
  by pat_completeness auto
termination
  by (relation "measure (\<lambda>(r, replacement, prev, s). length s)") auto

definition String_replace :: "string \<Rightarrow> RegExp \<Rightarrow> string \<Rightarrow> string \<times> RegExp" where
  "String_replace s regexp replacement =
     (replace_from (source regexp) replacement None s, regexp\<lparr>lastIndex := 0\<rparr>)"



section \<open>Content safety guardrail (ContentSafetyGuardrail)\<close>

text \<open>The four \<open>harmfulPatterns\<close> (flags \<open>gi\<close>) and the four \<open>sensitivePatterns\<close> (flag \<open>g\<close>).\<close>

definition harmful_violence :: regex where
  "harmful_violence =
     seqs [WordBoundary,
           alts (map word_i [''kill'', ''murder'', ''assassinate'', ''torture'', ''harm'',
                             ''hurt'', ''violence'', ''weapon'', ''bomb'', ''explosive'']),
           WordBoundary]"

definition harmful_illegal :: regex where
  "harmful_illegal =
     seqs [WordBoundary,
           alts (map word_i [''drug'', ''cocaine'', ''heroin'', ''meth'', ''illegal'',
                             ''hack'', ''crack'', ''pirate'', ''steal'', ''fraud'']),
           WordBoundary]"

definition harmful_hate :: regex where
  "harmful_hate =
     seqs [WordBoundary,
           alts (map word_i [''nazi'', ''terrorist'', ''extremist'', ''radical'',
                             ''supremacist'']),
           WordBoundary]"

definition harmful_self_harm :: regex where
  "harmful_self_harm =
     seqs [WordBoundary,
           alts [word_i ''suicide'',
                 seqs [word_i ''self'', One any_char, word_i ''harm''],
                 seqs [word_i ''cut'', One any_char, word_i ''myself''],
                 seqs [word_i ''end'', One any_char, word_i ''my'', One any_char,
                       word_i ''life'']],
           WordBoundary]"

text \<open>\<open>[\s-]\<close>, \<open>[A-Za-z0-9._%+-]\<close>, \<open>[A-Za-z0-9.-]\<close> and \<open>[A-Z|a-z]\<close>\<close>

definition space_or_dash :: "char \<Rightarrow> bool" where
  "space_or_dash c \<longleftrightarrow> white_space c \<or> c = CHR ''-''"

definition email_local :: "char \<Rightarrow> bool" where
  "email_local c \<longleftrightarrow> upper_alpha c \<or> lower_alpha c \<or> digit c \<or> c \<in> set ''._%+-''"

definition email_domain :: "char \<Rightarrow> bool" where
  "email_domain c \<longleftrightarrow> upper_alpha c \<or> lower_alpha c \<or> digit c \<or> c \<in> set ''.-''"

definition email_tld :: "char \<Rightarrow> bool" where
  "email_tld c \<longleftrightarrow> upper_alpha c \<or> c = CHR ''|'' \<or> lower_alpha c"

definition sensitive_ssn :: regex where
  "sensitive_ssn =
     seqs [WordBoundary, Times 3 (One digit), One (lit CHR ''-''), Times 2 (One digit),
           One (lit CHR ''-''), Times 4 (One digit), WordBoundary]"

definition sensitive_card :: regex where
  "sensitive_card =
     seqs [WordBoundary, Times 4 (One digit), Opt (One space_or_dash), Times 4 (One digit),
           Opt (One space_or_dash), Times 4 (One digit), Opt (One space_or_dash),
           Times 4 (One digit), WordBoundary]"

definition sensitive_email :: regex where
  "sensitive_email =
     seqs [WordBoundary, One email_local, Star email_local, One (lit CHR ''@''),
           One email_domain, Star email_domain, One (lit CHR ''.''),
           Times 2 (One email_tld), Star email_tld, WordBoundary]"

definition sensitive_phone :: regex where
  "sensitive_phone =
     seqs [WordBoundary, Times 3 (One digit), Opt (One space_or_dash), Times 3 (One digit),
           Opt (One space_or_dash), Times 4 (One digit), WordBoundary]"

text \<open>The state of a \<open>ContentSafetyGuardrail\<close> object: its eight \<open>RegExp\<close> objects.\<close>

record ContentSafetyGuardrail =
  harmfulPatterns :: "RegExp list"
  sensitivePatterns :: "RegExp list"

definition new_ContentSafetyGuardrail :: ContentSafetyGuardrail where
  "new_ContentSafetyGuardrail =
     \<lparr>harmfulPatterns =
        map new_RegExp [harmful_violence, harmful_illegal, harmful_hate, harmful_self_harm],
      sensitivePatterns =
        map new_RegExp [sensitive_ssn, sensitive_card, sensitive_email, sensitive_phone]\<rparr>"

text \<open>
  \<open>for (const pattern of patterns) if (pattern.test(content)) return ...\<close>, the loop of
  \<open>harmfulPatterns\<close> (and of both lists of the prompt injection rule): whether some
  pattern tested true, and the objects afterwards. The patterns after the first hit are
  not tested.
\<close>

fun test_patterns :: "RegExp list \<Rightarrow> string \<Rightarrow> bool \<times> RegExp list" where
  "test_patterns [] content' = (False, [])"
| "test_patterns (pattern # patterns) content' =
     (case RegExp_test pattern content' of
        (True, pattern') \<Rightarrow> (True, pattern' # patterns)
      | (False, pattern') \<Rightarrow>
          (case test_patterns patterns content' of
             (hit, patterns') \<Rightarrow> (hit, pattern' # patterns')))"

text \<open>
  The loop over \<open>sensitivePatterns\<close>: the test is on \<open>content\<close>, the replacement on
  \<open>modifiedContent\<close>. Returns \<open>modifiedContent\<close>, \<open>hasSensitiveData\<close> and the objects.
\<close>

fun redact_sensitive ::
  "RegExp list \<Rightarrow> string \<Rightarrow> string \<Rightarrow> bool \<Rightarrow> string \<times> bool \<times> RegExp list" where
  "redact_sensitive [] content' modifiedContent' hasSensitiveData =
     (modifiedContent', hasSensitiveData, [])"
| "redact_sensitive (pattern # patterns) content' modifiedContent' hasSensitiveData =
     (case RegExp_test pattern content' of
        (True, pattern') \<Rightarrow>
          (case String_replace modifiedContent' pattern' ''[REDACTED]'' of
             (modifiedContent'', pattern'') \<Rightarrow>
               (case redact_sensitive patterns content' modifiedContent'' True of
                  (m, h, patterns') \<Rightarrow> (m, h, pattern'' # patterns')))
      | (False, pattern') \<Rightarrow>
          (case redact_sensitive patterns content' modifiedContent' hasSensitiveData of
             (m, h, patterns') \<Rightarrow> (m, h, pattern' # patterns')))"

definition ContentSafety_checkInput ::
  "string \<Rightarrow> GuardrailContext \<Rightarrow> ContentSafetyGuardrail
     \<Rightarrow> GuardrailResult \<times> ContentSafetyGuardrail" where
  "ContentSafety_checkInput content' context this =
     (case test_patterns (harmfulPatterns this) content' of
        (True, harmful') \<Rightarrow>
          (createResult ''content_safety'' Block
             ''Content contains potentially harmful or dangerous information''
             content' None High (9 / 10),
           this\<lparr>harmfulPatterns := harmful'\<rparr>)
      | (False, harmful') \<Rightarrow>
          (case redact_sensitive (sensitivePatterns this) content' content' False of
             (modifiedContent', hasSensitiveData, sensitive') \<Rightarrow>
               (if hasSensitiveData
                  then createResult ''content_safety'' Modify
                         ''Sensitive personal information detected and redacted''
                         content' (Some modifiedContent') Medium (95 / 100)
                else createResult ''content_safety'' Allow ''Content passed safety checks''
                       content' None Low 1,
                this\<lparr>harmfulPatterns := harmful', sensitivePatterns := sensitive'\<rparr>)))"


section \<open>Prompt injection guardrail (PromptInjectionGuardrail)\<close>

text \<open>\<open>\s+\<close>, \<open>\s*\<close>, and a word with an optional final \<open>s\<close> (\<open>instructions?\<close>)\<close>

definition ws1 :: regex where
  "ws1 = Seq (One white_space) (Star white_space)"

definition ws0 :: regex where
  "ws0 = Star white_space"

definition plural :: "string \<Rightarrow> regex" where
  "plural w = Seq (word_i w) (Opt (One (lit_i CHR ''s'')))"

definition hex_digit :: "char \<Rightarrow> bool" where
  "hex_digit c \<longleftrightarrow> c \<in> set ''0123456789abcdefABCDEF''"

text \<open>The fifteen \<open>injectionPatterns\<close> and the three \<open>suspiciousStructures\<close> (flags \<open>gi\<close>).\<close>

definition injectionPatterns_sources :: "regex list" where
  "injectionPatterns_sources =
     [seqs [word_i ''ignore'', ws1,
            alts (map word_i [''previous'', ''all'', ''above'', ''system'']), ws1,
            alts [plural ''instruction'', plural ''prompt'', plural ''rule'']],
      seqs [word_i ''forget'', ws1,
            alts (map word_i [''everything'', ''all'', ''previous'', ''system''])],
      seqs [word_i ''new'', ws1,
            alts [plural ''instruction'', word_i ''task'', word_i ''role'', word_i ''system'']],
      seqs [word_i ''you'', ws1, word_i ''are'', ws1, word_i ''now'', ws1,
            alts (map word_i [''a'', ''an'', ''the''])],
      seqs [word_i ''act'', ws1, word_i ''as'', ws1, alts (map word_i [''a'', ''an'', ''the''])],
      seqs [word_i ''pretend'', ws1,
            alts [seqs [word_i ''to'', ws1, word_i ''be''],
                  seqs [word_i ''you'', ws1, word_i ''are'']]],
      seqs [word_i ''show'', ws1, word_i ''me'', ws1, alts (map word_i [''your'', ''the'']), ws1,
            Opt (seqs [word_i ''system'', ws1]),
            alts [word_i ''prompt'', plural ''instruction'']],
      seqs [word_i ''what'', ws1, Opt (seqs [word_i ''are'', ws1]), word_i ''your'', ws1,
            Opt (seqs [word_i ''system'', ws1]),
            alts [word_i ''prompt'', plural ''instruction'']],
      seqs [word_i ''repeat'', ws1, alts (map word_i [''your'', ''the'']), ws1,
            Opt (seqs [word_i ''system'', ws1]),
            alts [word_i ''prompt'', plural ''instruction'']],
      alts [seqs [WordBoundary, word_i ''DAN'', WordBoundary],
            seqs [WordBoundary, word_i ''do'', ws1, word_i ''anything'', ws1, word_i ''now'',
                  WordBoundary]],
      seqs [word_i ''developer'', ws1, word_i ''mode''],
      word_i ''jailbreak'',
      alts (map word_i [''base64'', ''rot13'', ''caesar'', ''cipher'']),
      seqs [One (lit CHR 0x5C), One (lit_i CHR ''x''), Times 2 (One hex_digit)],
      seqs [word_i ''&#'', One digit, Star digit, One (lit CHR '';'')]]"

definition suspiciousStructures_sources :: "regex list" where
  "suspiciousStructures_sources =
     [seqs [word_i ''system:'', ws0, Star any_char, One (lit CHR 0x0A),
            word_i ''user:'', ws0, Star any_char, One (lit CHR 0x0A), word_i ''assistant:''],
      seqs [word_i ''human:'', ws0, Star any_char, One (lit CHR 0x0A),
            word_i ''ai:'', ws0, Star any_char, One (lit CHR 0x0A), word_i ''human:''],
      seqs [One (lit CHR ''<''), ws0,
            alts (map word_i [''system'', ''user'', ''assistant'', ''human'', ''ai'']), ws0,
            One (lit CHR ''>'')]]"

record PromptInjectionGuardrail =
  injectionPatterns :: "RegExp list"
  suspiciousStructures :: "RegExp list"

definition new_PromptInjectionGuardrail :: PromptInjectionGuardrail where
  "new_PromptInjectionGuardrail =
     \<lparr>injectionPatterns = map new_RegExp injectionPatterns_sources,
      suspiciousStructures = map new_RegExp suspiciousStructures_sources\<rparr>"

text \<open>
  \<open>(content.match(/[^a-zA-Z0-9\s.,!?]/g) || []).length\<close>, and the lengths of the pieces of
  \<open>content.split(/\s+/)\<close> (the maximal runs of characters that are not white space).
\<close>

definition special_char :: "char \<Rightarrow> bool" where
  "special_char c \<longleftrightarrow>
     \<not> (lower_alpha c \<or> upper_alpha c \<or> digit c \<or> white_space c \<or> c \<in> set ''.,!?'')"

fun word_lengths :: "string \<Rightarrow> nat \<Rightarrow> nat list" where
  "word_lengths [] n = [n]"
| "word_lengths (c # cs) n =
     (if white_space c then n # word_lengths cs 0 else word_lengths cs (Suc n))"

text \<open>
  \<open>specialCharRatio > 0.3 && content.length > 50\<close>: for a non-empty payload the quotient
  of the two integers exceeds 0.3 exactly when ten times the count exceeds three times
  the length.
\<close>

definition PromptInjection_checkInput ::
  "string \<Rightarrow> GuardrailContext \<Rightarrow> PromptInjectionGuardrail
     \<Rightarrow> GuardrailResult \<times> PromptInjectionGuardrail" where
  "PromptInjection_checkInput content' context this =
     (case test_patterns (injectionPatterns this) content' of
        (True, injection') \<Rightarrow>
          (createResult ''prompt_injection'' Block ''Potential prompt injection detected''
             content' None High (9 / 10),
           this\<lparr>injectionPatterns := injection'\<rparr>)
      | (False, injection') \<Rightarrow>
          (case test_patterns (suspiciousStructures this) content' of
             (True, structures') \<Rightarrow>
               (createResult ''prompt_injection'' Flag
                  ''Suspicious conversation structure detected'' content' None Medium (8 / 10),
                this\<lparr>injectionPatterns := injection', suspiciousStructures := structures'\<rparr>)
           | (False, structures') \<Rightarrow>
               (if 3 * length content' < 10 * length (filter special_char content') \<and>
                   length content' > 50
                  then createResult ''prompt_injection'' Flag
                         ''High ratio of special characters detected'' content' None Medium
                         (7 / 10)
                else if filter (\<lambda>n. n > 100) (word_lengths content' 0) \<noteq> []
                  then createResult ''prompt_injection'' Flag ''Unusually long words detected''
                         content' None Medium (8 / 10)
                else createResult ''prompt_injection'' Allow ''No prompt injection detected''
                       content' None Low 1,
                this\<lparr>injectionPatterns := injection', suspiciousStructures := structures'\<rparr>)))"

section \<open>Completeness guardrail, input phase (CompletenessGuardrail.checkInput)\<close>

definition code_request :: regex where
  "code_request =
     seqs [WordBoundary,
           alts (map word_i [''code'', ''function'', ''component'', ''implement'', ''build'',
                             ''create'', ''write'', ''generate'']),
           WordBoundary]"

text \<open>The expression is a literal inside the method: a fresh object at every call.\<close>

definition Completeness_checkInput :: "string \<Rightarrow> GuardrailContext \<Rightarrow> GuardrailResult" where
  "Completeness_checkInput content' context =
     (let isCodeRequest = rx_test code_request content'
      in if \<not> isCodeRequest
           then createResult ''completeness'' Allow ''Not a code request'' content' None Low 1
         else createResult ''completeness'' Allow ''Input validation passed'' content' None
                Low 1)"

section \<open>Guardrails middleware (src/lib/guardrails/middleware.ts)\<close>

datatype log_level = LogNone | LogErrors | LogAll

record GuardrailConfig =
  enabled :: bool
  strictMode :: bool
  logLevel :: log_level
  whitelist :: "string list"
  blacklist :: "string list"

text \<open>
  A guardrail object, seen from the middleware: its name, type, priority and enabled
  flag, and its \<open>checkInput\<close> method. The objects keep state between calls (the rate
  limiter's map, the \<open>lastIndex\<close> of the expressions), so a method takes the state \<open>'w\<close>
  of all rule objects and of the clock and returns the new one; \<open>Inl\<close> is a thrown error.
\<close>

record 'w BaseGuardrail =
  g_name :: string
  g_type :: string
  g_priority :: int
  g_enabled :: bool
  g_checkInput :: "string \<Rightarrow> GuardrailContext \<Rightarrow> 'w \<Rightarrow> (error + GuardrailResult) \<times> 'w"

subsection \<open>Whitelist and blacklist\<close>

text \<open>
  \<open>toLowerCase\<close> on code units below 256 (the ASCII capitals and the capitals of the
  Latin-1 block), and \<open>includes\<close>.
\<close>

definition toLowerCase_char :: "char \<Rightarrow> char" where
  "toLowerCase_char c =
     (let n = (of_char c :: nat)
      in if (65 \<le> n \<and> n \<le> 90) \<or> (192 \<le> n \<and> n \<le> 222 \<and> n \<noteq> 215)
           then char_of (n + 32)
         else c)"

definition toLowerCase :: "string \<Rightarrow> string" where
  "toLowerCase s = map toLowerCase_char s"

fun startsWith :: "string \<Rightarrow> string \<Rightarrow> bool" where
  "startsWith s [] = True"
| "startsWith [] (p # ps) = False"
| "startsWith (c # cs) (p # ps) = (c = p \<and> startsWith cs ps)"

fun String_includes :: "string \<Rightarrow> string \<Rightarrow> bool" where
  "String_includes [] p = (p = [])"
| "String_includes (c # cs) p = (startsWith (c # cs) p \<or> String_includes cs p)"

text \<open>
  \<open>new RegExp(pattern, "i")\<close> parses a pattern supplied in the configuration; the parser
  belongs to the JavaScript engine. It is a parameter \<open>compile\<close>: \<open>None\<close> when the
  constructor throws (the pattern is not a valid regular expression), otherwise the
  \<open>test\<close> method of the new object, which has no \<open>g\<close> flag and therefore no state.
\<close>

type_synonym regexp_engine = "string \<Rightarrow> (string \<Rightarrow> bool) option"

definition matches_pattern :: "regexp_engine \<Rightarrow> string \<Rightarrow> string \<Rightarrow> bool" where
  "matches_pattern compile content' pattern =
     (case compile pattern of
        Some test \<Rightarrow> test content'
      | None \<Rightarrow> String_includes (toLowerCase content') (toLowerCase pattern))"

definition isWhitelisted :: "GuardrailConfig \<Rightarrow> regexp_engine \<Rightarrow> string \<Rightarrow> bool" where
  "isWhitelisted config compile content' =
     (if length (whitelist config) = 0 then False
      else list_ex (matches_pattern compile content') (whitelist config))"

definition isBlacklisted :: "GuardrailConfig \<Rightarrow> regexp_engine \<Rightarrow> string \<Rightarrow> bool" where
  "isBlacklisted config compile content' =
     (if length (blacklist config) = 0 then False
      else list_ex (matches_pattern compile content') (blacklist config))"

subsection \<open>\<open>logResults\<close>\<close>

text \<open>The rows handed to the persistence layer; a failing insert is caught and ignored.\<close>

definition logResults :: "GuardrailConfig \<Rightarrow> GuardrailResult list \<Rightarrow> string \<Rightarrow> GuardrailResult list" where
  "logResults config results' phase =
     (if logLevel config = LogNone then []
      else map (\<lambda>result. result\<lparr>reason := ''['' @ phase @ ''] '' @ reason result\<rparr>)
             (filter (\<lambda>result. logLevel config = LogAll \<or> action result \<noteq> Allow \<or>
                                 severity result = High \<or> severity result = Critical)
                results'))"

subsection \<open>\<open>processInput\<close>\<close>

text \<open>
  The variables of the rule loop. \<open>executed\<close> is not in the source: it records, for every
  \<open>checkInput\<close> that was called, the rule's type and the content it was given, so that
  claims about which rules run and what they see can be stated.
\<close>

record loop_vars =
  results :: "GuardrailResult list"
  processedContent :: string
  blocked :: bool
  flagged :: bool
  executed :: "(string \<times> string) list"

text \<open>The \<open>switch (result.action)\<close>; \<open>if (result.modifiedContent)\<close> is false for \<open>""\<close>.\<close>

definition apply_action :: "GuardrailResult \<Rightarrow> loop_vars \<Rightarrow> loop_vars" where
  "apply_action result vars =
     (case action result of
        Block \<Rightarrow> vars\<lparr>blocked := True\<rparr>
      | Modify \<Rightarrow>
          (case modifiedContent result of
             None \<Rightarrow> vars
           | Some m \<Rightarrow> if m = [] then vars else vars\<lparr>processedContent := m\<rparr>)
      | Flag \<Rightarrow> vars\<lparr>flagged := True\<rparr>
      | Allow \<Rightarrow> vars)"

definition system_error :: "string \<Rightarrow> string \<Rightarrow> GuardrailResult" where
  "system_error guardrail_name content' =
     \<lparr>action = Block, reason = ''Guardrail system error: '' @ guardrail_name,
      originalContent = content', modifiedContent = None, severity = Critical,
      guardrailType = ''system_error'', confidence = 1\<rparr>"

text \<open>
  \<open>for (const guardrail of this.guardrails)\<close>, with \<open>content\<close> the payload \<open>processInput\<close>
  was called with (the \<open>system_error\<close> verdict carries it).
\<close>

fun run_guardrails ::
  "GuardrailConfig \<Rightarrow> string \<Rightarrow> GuardrailContext \<Rightarrow> 'w BaseGuardrail list \<Rightarrow> loop_vars \<Rightarrow> 'w
     \<Rightarrow> loop_vars \<times> 'w" where
  "run_guardrails config content' context [] vars w = (vars, w)"
| "run_guardrails config content' context (guardrail # guardrails) vars w =
     (if \<not> g_enabled guardrail then run_guardrails config content' context guardrails vars w
      else
        (case g_checkInput guardrail (processedContent vars) context w of
           (Inr result, w') \<Rightarrow>
             (let vars = vars\<lparr>results := results vars @ [result],
                              executed := executed vars @
                                            [(g_type guardrail, processedContent vars)]\<rparr>;
                  vars = apply_action result vars
              in if blocked vars \<and> strictMode config then (vars, w')
                 else run_guardrails config content' context guardrails vars w')
         | (Inl err, w') \<Rightarrow>
             (let vars = vars\<lparr>executed := executed vars @
                                            [(g_type guardrail, processedContent vars)]\<rparr>
              in if strictMode config
                   then (vars\<lparr>blocked := True,
                              results := results vars @
                                           [system_error (g_name guardrail) content']\<rparr>, w')
                 else run_guardrails config content' context guardrails vars w')))"

record GuardrailProcessResult =
  allowed :: bool
  result_content :: string
  result_results :: "GuardrailResult list"
  result_flagged :: "bool option"
  result_executed :: "(string \<times> string) list"
  logged :: "GuardrailResult list"

definition whitelist_verdict :: "string \<Rightarrow> GuardrailResult" where
  "whitelist_verdict content' =
     \<lparr>action = Allow, reason = ''Content is whitelisted'', originalContent = content',
      modifiedContent = None, severity = Low, guardrailType = ''whitelist'', confidence = 1\<rparr>"

definition blacklist_verdict :: "string \<Rightarrow> GuardrailResult" where
  "blacklist_verdict content' =
     \<lparr>action = Block, reason = ''Content is blacklisted'', originalContent = content',
      modifiedContent = None, severity = High, guardrailType = ''blacklist'', confidence = 1\<rparr>"

text \<open>
  \<open>processInput\<close>, for a middleware with the configuration \<open>config\<close> and the rule list
  \<open>guardrails\<close>. \<open>totalTime\<close> (elapsed wall-clock time) is left out of the result.
\<close>

definition processInput ::
  "GuardrailConfig \<Rightarrow> regexp_engine \<Rightarrow> 'w BaseGuardrail list \<Rightarrow> string \<Rightarrow> GuardrailContext \<Rightarrow> 'w
     \<Rightarrow> GuardrailProcessResult \<times> 'w" where
  "processInput config compile guardrails content' context w =
     (if \<not> enabled config then
        (\<lparr>allowed = True, result_content = content', result_results = [],
          result_flagged = None, result_executed = [], logged = []\<rparr>, w)
      else if isWhitelisted config compile content' then
        (\<lparr>allowed = True, result_content = content',
          result_results = [whitelist_verdict content'],
          result_flagged = None, result_executed = [], logged = []\<rparr>, w)
      else
        (let vars = \<lparr>results = [], processedContent = content', blocked = False,
                      flagged = False, executed = []\<rparr>;
             vars = (if isBlacklisted config compile content'
                       then vars\<lparr>blocked := True,
                                 results := results vars @ [blacklist_verdict content']\<rparr>
                     else vars)
         in case run_guardrails config content' context guardrails vars w of
              (vars, w') \<Rightarrow>
                (\<lparr>allowed = \<not> blocked vars, result_content = processedContent vars,
                  result_results = results vars, result_flagged = Some (flagged vars),
                  result_executed = executed vars,
                  logged = logResults config (results vars) ''input''\<rparr>, w')))"

subsection \<open>The middleware as constructed\<close>

text \<open>
  The state of the four rule objects and the clock \<open>Date.now()\<close> reads. The completeness
  rule has no state in its input phase.
\<close>

record world =
  clock :: nat
  rateLimit :: userLimits
  contentSafety :: ContentSafetyGuardrail
  promptInjection :: PromptInjectionGuardrail

definition RateLimitGuardrail :: "world BaseGuardrail" where
  "RateLimitGuardrail =
     \<lparr>g_name = ''Rate Limiting'', g_type = ''rate_limit'', g_priority = 0, g_enabled = True,
      g_checkInput = (\<lambda>content' context w.
        case RateLimit_checkInput content' context (clock w) (rateLimit w) of
          (result, userLimits') \<Rightarrow> (Inr result, w\<lparr>rateLimit := userLimits'\<rparr>))\<rparr>"

definition ContentSafetyGuardrail :: "world BaseGuardrail" where
  "ContentSafetyGuardrail =
     \<lparr>g_name = ''Content Safety'', g_type = ''content_safety'', g_priority = 1,
      g_enabled = True,
      g_checkInput = (\<lambda>content' context w.
        case ContentSafety_checkInput content' context (contentSafety w) of
          (result, this) \<Rightarrow> (Inr result, w\<lparr>contentSafety := this\<rparr>))\<rparr>"

definition PromptInjectionGuardrail :: "world BaseGuardrail" where
  "PromptInjectionGuardrail =
     \<lparr>g_name = ''Prompt Injection Protection'', g_type = ''prompt_injection'', g_priority = 2,
      g_enabled = True,
      g_checkInput = (\<lambda>content' context w.
        case PromptInjection_checkInput content' context (promptInjection w) of
          (result, this) \<Rightarrow> (Inr result, w\<lparr>promptInjection := this\<rparr>))\<rparr>"

definition CompletenessGuardrail :: "world BaseGuardrail" where
  "CompletenessGuardrail =
     \<lparr>g_name = ''Code Completeness & Quality'', g_type = ''completeness'', g_priority = 3,
      g_enabled = True,
      g_checkInput = (\<lambda>content' context w. (Inr (Completeness_checkInput content' context), w))\<rparr>"

text \<open>\<open>initializeGuardrails\<close>: the four rules, sorted by priority (the sort is stable).\<close>

definition initializeGuardrails :: "world BaseGuardrail list" where
  "initializeGuardrails =
     sort_key g_priority
       [RateLimitGuardrail, ContentSafetyGuardrail, PromptInjectionGuardrail,
        CompletenessGuardrail]"

text \<open>The constructor's default configuration with the options of the global instance.\<close>

definition guardrailsMiddleware_config :: GuardrailConfig where
  "guardrailsMiddleware_config =
     \<lparr>enabled = True, strictMode = False, logLevel = LogAll, whitelist = [], blacklist = []\<rparr>"

definition new_world :: world where
  "new_world =
     \<lparr>clock = 0, rateLimit = Map.empty, contentSafety = new_ContentSafetyGuardrail,
      promptInjection = new_PromptInjectionGuardrail\<rparr>"

text \<open>
  An engine for the examples: a non-empty pattern of letters, digits and spaces is the
  regular expression that matches this text without regard to case, as in JavaScript;
  any other pattern is rejected, as JavaScript rejects \<open>(\<close>. It is used at such patterns
  only.
\<close>

definition literal_engine :: regexp_engine where
  "literal_engine pattern =
     (if pattern \<noteq> [] \<and>
         list_all (\<lambda>c. lower_alpha c \<or> upper_alpha c \<or> digit c \<or> c = CHR '' '') pattern
        then Some (rx_test (word_i pattern))
      else None)"

subsection \<open>Notions used to state the properties of the rule chain\<close>

text \<open>
  A rule whose \<open>checkInput\<close> returns a verdict in every state, and the content that the
  rule after a verdict is given: the verdict's \<open>modifiedContent\<close> when the verdict is a
  \<open>modify\<close> carrying a non-empty one, the content given to the verdict's rule otherwise.
  \<open>contents_seen c verdicts\<close> lists what the rules that returned \<open>verdicts\<close>, one after the
  other, were given when the first was given \<open>c\<close>.
\<close>

definition never_throws :: "'w BaseGuardrail \<Rightarrow> bool" where
  "never_throws g \<longleftrightarrow> (\<forall>c context w. \<exists>v w'. g_checkInput g c context w = (Inr v, w'))"

definition next_content :: "string \<Rightarrow> GuardrailResult \<Rightarrow> string" where
  "next_content c v =
     (if action v = Modify
        then (case modifiedContent v of None \<Rightarrow> c | Some m \<Rightarrow> if m = [] then c else m)
      else c)"

fun contents_seen :: "string \<Rightarrow> GuardrailResult list \<Rightarrow> string list" where
  "contents_seen c [] = []"
| "contents_seen c (v # vs) = c # contents_seen (next_content c v) vs"


text \<open>
  \<open>produced context g v\<close>: the verdict \<open>v\<close> is what \<open>g\<close>'s \<open>checkInput\<close> returned for some
  content in some state. \<open>chained cs vs\<close>, for the contents \<open>cs\<close> given to the rules that
  returned the verdicts \<open>vs\<close>: every \<open>modify\<close> verdict carries a content different from its
  \<open>originalContent\<close>, and that content is what every rule executed after it was given.
\<close>

definition produced :: "GuardrailContext \<Rightarrow> 'w BaseGuardrail \<Rightarrow> GuardrailResult \<Rightarrow> bool" where
  "produced context g v \<longleftrightarrow> (\<exists>c w. fst (g_checkInput g c context w) = Inr v)"


text \<open>Configurations for the examples.\<close>

definition lists_config :: GuardrailConfig where
  "lists_config =
     guardrailsMiddleware_config\<lparr>whitelist := [''internal test'', ''(''],
                                 blacklist := [''forbidden'']\<rparr>"

definition blacklist_config :: GuardrailConfig where
  "blacklist_config = guardrailsMiddleware_config\<lparr>blacklist := [''forbidden'']\<rparr>"

definition strict_config :: GuardrailConfig where
  "strict_config = guardrailsMiddleware_config\<lparr>strictMode := True\<rparr>"

definition initial_vars :: "string \<Rightarrow> loop_vars" where
  "initial_vars content' =
     \<lparr>results = [], processedContent = content', blocked = False, flagged = False,
      executed = []\<rparr>"

section \<open>Properties of the dispatch client\<close>

declare executeWithRetry_loop.simps [simp del]

subsection \<open>Insertion-ordered sets\<close>

lemma Set_add_mem: "x \<in> set s \<Longrightarrow> Set_add s x = s"
  by (simp add: Set_add_def)

lemma Set_add_new: "x \<notin> set s \<Longrightarrow> Set_add s x = s @ [x]"
  by (simp add: Set_add_def)

lemma foldl_Set_add_filter:
  fixes acc :: "'a list"
  shows "foldl Set_add acc xs = acc @ foldl Set_add [] (filter (\<lambda>y. y \<notin> set acc) xs)"
proof (induction xs arbitrary: acc rule: length_induct)
  case (1 xs)
  show ?case
  proof (cases xs)
    case Nil
    then show ?thesis by simp
  next
    case (Cons x ys)
    have ih: "foldl Set_add a zs = a @ foldl Set_add [] (filter (\<lambda>y. y \<notin> set a) zs)"
      if "length zs \<le> length ys" for zs a :: "'a list"
    proof -
      from that Cons have "length zs < length xs" by simp
      with "1.IH" show ?thesis by blast
    qed
    show ?thesis
    proof (cases "x \<in> set acc")
      case True
      then show ?thesis using Cons ih[of ys acc] by (simp add: Set_add_mem)
    next
      case False
      have a: "foldl Set_add (acc @ [x]) ys =
               (acc @ [x]) @ foldl Set_add [] (filter (\<lambda>y. y \<notin> set (acc @ [x])) ys)"
        using ih[of ys "acc @ [x]"] by simp
      have b: "foldl Set_add [x] (filter (\<lambda>y. y \<notin> set acc) ys) =
               [x] @ foldl Set_add []
                       (filter (\<lambda>y. y \<notin> set [x]) (filter (\<lambda>y. y \<notin> set acc) ys))"
        using ih[of "filter (\<lambda>y. y \<notin> set acc) ys" "[x]"] by simp
      have c: "filter (\<lambda>y. y \<notin> set [x]) (filter (\<lambda>y. y \<notin> set acc) ys) =
               filter (\<lambda>y. y \<notin> set (acc @ [x])) ys"
        by (simp add: conj_commute)
      show ?thesis using Cons False a b c by (simp add: Set_add_new)
    qed
  qed
qed

lemma Set_of_Nil: "Set_of [] = []"
  by (simp add: Set_of_def)

lemma Set_of_Cons: "Set_of (x # xs) = x # Set_of (filter (\<lambda>y. y \<noteq> x) xs)"
proof -
  have "Set_of (x # xs) = foldl Set_add [x] xs"
    by (simp add: Set_of_def Set_add_new)
  also have "\<dots> = [x] @ foldl Set_add [] (filter (\<lambda>y. y \<notin> set [x]) xs)"
    by (rule foldl_Set_add_filter)
  finally show ?thesis by (simp add: Set_of_def)
qed

subsection \<open>Facts about the shipped table and the concrete registry\<close>

lemma property_of_Own: "map_of tbl modelId = Some config \<Longrightarrow> property_of tbl modelId = Own config"
  by (simp add: property_of_def)

lemma map_of_gpt4o_mini:
  "map_of modelConfigs ''gpt-4o-mini'' =
     Some (snd (mk_model ''gpt-4o-mini'' ''openai'' 128000 (15 / 100000) (6 / 10000) Standard))"
  by (simp add: modelConfigs_def mk_model_def)

lemma map_of_gpt4o:
  "map_of modelConfigs ''gpt-4o'' =
     Some (snd (mk_model ''gpt-4o'' ''openai'' 128000 (5 / 1000) (15 / 1000) Premium))"
  by (simp add: modelConfigs_def mk_model_def)

lemma openai_ready: "getProvider aiRegistry_ready ''openai'' = Inr ''openai''"
  by (simp add: getProvider_def aiRegistry_ready_def)

lemma openai_models_ready:
  "getProviderForModel modelConfigs aiRegistry_ready ''gpt-4o'' = Inr ''openai''"
  "getProviderForModel modelConfigs aiRegistry_ready ''gpt-4o-mini'' = Inr ''openai''"
  by (simp_all add: getProviderForModel_def property_of_def map_of_gpt4o map_of_gpt4o_mini
      mk_model_def openai_ready)

lemma two_fallbacks_fields:
  "maxRetries two_fallbacks = Suc (Suc (Suc 0))"
  "enableFallback two_fallbacks"
  "fallbackModels two_fallbacks = [''gpt-4o-mini'', ''claude-3-5-haiku-20241022'']"
  by (simp_all add: two_fallbacks_def eval_nat_numeral)


lemma gpt4o_default_candidates:
  "getModelsToTry default_options modelConfigs ''gpt-4o'' =
     Inr [''gpt-4o'', ''gpt-4o-mini'', ''llama-3.1-sonar-small-128k-online'',
      ''claude-3-5-haiku-20241022'']"
  by (simp add: getModelsToTry_def getAutomaticFallbacks_def default_options_def Set_of_Cons
      Set_of_Nil sameProviderModels_def crossProviderModels_def modelConfigs_def mk_model_def
      Object_values_def property_of_def)

lemma aiClient_gpt4o_candidates:
  "getModelsToTry aiClient_options modelConfigs ''gpt-4o'' =
     Inr [''gpt-4o'', ''gpt-4o-mini'', ''claude-3-5-haiku-20241022'', ''llama-3.1-8b-instant'',
      ''llama-3.1-sonar-small-128k-online'']"
  by (simp add: getModelsToTry_def getAutomaticFallbacks_def aiClient_options_def Set_of_Cons
      Set_of_Nil sameProviderModels_def crossProviderModels_def modelConfigs_def mk_model_def
      Object_values_def property_of_def)

subsection \<open>Retry and fallback in \<open>generateText\<close>\<close>

text \<open>
  When every one of the \<open>maxRetries + 1\<close> attempts throws, \<open>executeWithRetry\<close> has called
  the adapter exactly that often and rethrows the error of the last attempt.
\<close>

lemma executeWithRetry_loop_exhausted:
  assumes "\<forall>k. attempt + k \<le> n \<longrightarrow> (\<exists>e. operation (calls @ replicate k m) m = Inl e)"
    and "attempt \<le> n"
  shows "\<exists>e. executeWithRetry_loop operation m n attempt lastError calls =
               (Inl (Some e), calls @ replicate (Suc n - attempt) m) \<and>
             operation (calls @ replicate (n - attempt) m) m = Inl e"
  using assms
proof (induction "n - attempt" arbitrary: attempt lastError calls)
  case 0
  then have eq: "attempt = n" by simp
  from "0.prems"(1) eq obtain e where e: "operation calls m = Inl e"
    by (metis add.right_neutral le_refl replicate_0 append_Nil2)
  have "executeWithRetry_loop operation m n n lastError calls = (Inl (Some e), calls @ [m])"
    using e by (subst executeWithRetry_loop.simps, subst executeWithRetry_loop.simps) simp
  then show ?case using eq e by simp
next
  case (Suc d)
  then have lt: "attempt < n" and d: "d = n - Suc attempt" by simp_all
  from Suc.prems(1) obtain e0 where e0: "operation calls m = Inl e0"
    by (metis add.right_neutral Suc.prems(2) replicate_0 append_Nil2)
  have step: "\<forall>k. Suc attempt + k \<le> n \<longrightarrow>
                (\<exists>e. operation ((calls @ [m]) @ replicate k m) m = Inl e)"
  proof (intro allI impI)
    fix k assume "Suc attempt + k \<le> n"
    then have "attempt + Suc k \<le> n" by simp
    with Suc.prems(1) obtain e where "operation (calls @ replicate (Suc k) m) m = Inl e"
      by blast
    then show "\<exists>e. operation ((calls @ [m]) @ replicate k m) m = Inl e" by auto
  qed
  from Suc.hyps(1)[OF d step, of "Some e0"] lt
  obtain e where e:
    "executeWithRetry_loop operation m n (Suc attempt) (Some e0) (calls @ [m]) =
       (Inl (Some e), (calls @ [m]) @ replicate (Suc n - Suc attempt) m)"
    "operation ((calls @ [m]) @ replicate (n - Suc attempt) m) m = Inl e"
    by auto
  have r1: "(calls @ [m]) @ replicate (Suc n - Suc attempt) m =
            calls @ replicate (Suc n - attempt) m"
    using lt by (simp add: Suc_diff_le replicate_append_same)
  have r2: "(calls @ [m]) @ replicate (n - Suc attempt) m = calls @ replicate (n - attempt) m"
    using lt by (metis Suc_diff_Suc append.assoc append_Cons append_Nil replicate_Suc)
  have "executeWithRetry_loop operation m n attempt lastError calls =
        executeWithRetry_loop operation m n (Suc attempt) (Some e0) (calls @ [m])"
    using lt e0 by (subst executeWithRetry_loop.simps) simp
  then show ?case using e r1 r2 by simp
qed

lemma generateText_loop_exhausted:
  assumes known: "map_of tbl modelId = Some modelConfig"
    and en: "cfg_enabled modelConfig"
    and prov: "getProviderForModel tbl reg modelId = Inr provider"
    and exhausted:
      "\<forall>k\<le>maxRetries opts. \<exists>e. operation (calls @ replicate k modelId) modelId = Inl e"
  shows "\<exists>e. operation (calls @ replicate (maxRetries opts) modelId) modelId = Inl e \<and>
     generateText_loop opts tbl reg operation request_modelId (modelId # rest) lastError calls =
       (if modelId = request_modelId \<and> enableFallback opts
          then generateText_loop opts tbl reg operation request_modelId rest (Some e)
                 (calls @ replicate (Suc (maxRetries opts)) modelId)
        else (Inl e, calls @ replicate (Suc (maxRetries opts)) modelId))"
proof -
  from exhausted
  have "\<forall>k. 0 + k \<le> maxRetries opts \<longrightarrow>
          (\<exists>e. operation (calls @ replicate k modelId) modelId = Inl e)"
    by simp
  from executeWithRetry_loop_exhausted[where attempt = 0 and n = "maxRetries opts"
         and operation = operation and calls = calls and m = modelId and lastError = None,
         OF this]
  obtain e where e:
    "executeWithRetry operation modelId (maxRetries opts) calls =
       (Inl (Some e), calls @ replicate (Suc (maxRetries opts)) modelId)"
    "operation (calls @ replicate (maxRetries opts) modelId) modelId = Inl e"
    by (auto simp: executeWithRetry_def)
  show ?thesis
    using known en prov e
    by (intro exI[of _ e]) (simp add: throw_lastError_def property_of_Own)
qed

text \<open>
  C8. In \<open>generateText\<close>, a candidate that is known, enabled, resolved to an initialised
  provider and whose \<open>maxRetries + 1\<close> attempts all throw has been called exactly
  \<open>maxRetries + 1\<close> times. If it is the requested (preferred) model and fallback is enabled,
  the loop goes on with the remaining candidates; otherwise (the candidate is itself a
  fallback) the loop ends at once: no remaining candidate is called and the error of the
  last attempt is thrown to the caller.
\<close>

theorem generateText_failure_policy:
  assumes "map_of tbl modelId = Some modelConfig"
    and "cfg_enabled modelConfig"
    and "getProviderForModel tbl reg modelId = Inr provider"
    and "\<forall>k\<le>maxRetries opts. \<exists>e. operation (calls @ replicate k modelId) modelId = Inl e"
  shows "\<exists>e. operation (calls @ replicate (maxRetries opts) modelId) modelId = Inl e \<and>
     generateText_loop opts tbl reg operation request_modelId (modelId # rest) lastError calls =
       (if modelId = request_modelId \<and> enableFallback opts
          then generateText_loop opts tbl reg operation request_modelId rest (Some e)
                 (calls @ replicate (Suc (maxRetries opts)) modelId)
        else (Inl e, calls @ replicate (Suc (maxRetries opts)) modelId))"
  using assms by (rule generateText_loop_exhausted)

theorem generateText_failure_policy_witness:
  "generateText_loop two_fallbacks modelConfigs aiRegistry_ready only_haiku_answers ''gpt-4o''
     [''gpt-4o-mini'', ''claude-3-5-haiku-20241022''] None [] =
   (Inl (Error ''unavailable''),
    [''gpt-4o-mini'', ''gpt-4o-mini'', ''gpt-4o-mini'', ''gpt-4o-mini''])"
  using generateText_failure_policy[where tbl = modelConfigs and modelId = "''gpt-4o-mini''"
         and reg = aiRegistry_ready and opts = two_fallbacks and operation = only_haiku_answers
         and calls = "[]" and request_modelId = "''gpt-4o''"
         and rest = "[''claude-3-5-haiku-20241022'']" and lastError = None,
         OF map_of_gpt4o_mini _ openai_models_ready(2)]
  by (simp add: only_haiku_answers_def two_fallbacks_fields mk_model_def)





subsection \<open>Mid-stream failure in \<open>streamText\<close>\<close>

lemma map_of_sonnet:
  "map_of modelConfigs ''claude-3-5-sonnet-20241022'' =
     Some (snd (mk_model ''claude-3-5-sonnet-20241022'' ''anthropic'' 200000 (3 / 1000)
                  (15 / 1000) Premium))"
  by (simp add: modelConfigs_def mk_model_def)

lemma sonnet_ready:
  "getProviderForModel modelConfigs aiRegistry_ready ''claude-3-5-sonnet-20241022'' =
     Inr ''anthropic''"
  by (simp add: getProviderForModel_def property_of_def map_of_sonnet mk_model_def
      getProvider_def aiRegistry_ready_def)

lemma aiClient_sonnet_candidates:
  "\<exists>others. getModelsToTry aiClient_options modelConfigs ''claude-3-5-sonnet-20241022'' =
     Inr (''claude-3-5-sonnet-20241022'' # others)"
  by (simp add: getModelsToTry_def Let_def Set_of_Cons property_of_Own[OF map_of_sonnet]
      getAutomaticFallbacks_def aiClient_options_def)

lemma forward_chunks_text:
  "forward_chunks tbl modelId (map text_chunk textStream @ [caught_chunk e]) =
     (map text_chunk textStream @ [caught_chunk e], None)"
  by (induction textStream)
     (simp_all add: forward_chunk_def text_chunk_def caught_chunk_def)

lemma filter_error_chunks:
  "filter (\<lambda>c. chunk_type c = ErrorChunk) (map text_chunk textStream @ [caught_chunk e]) =
     [caught_chunk e]"
  by (induction textStream) (simp_all add: text_chunk_def caught_chunk_def)

text \<open>
  C2. A candidate that is known, enabled and resolved, whose adapter has the form of the
  adapters in the repository and whose SDK stream gives the deltas \<open>textStream\<close> and then
  fails with \<open>err\<close>. The adapter catches the failure, so the client's loop receives the
  text chunks followed by the adapter's error chunk and then ends the whole call: the
  caller receives exactly the text chunks already yielded, followed by exactly one
  error-type chunk, which carries the message of \<open>err\<close>; only this candidate's stream has
  been opened, whatever candidates \<open>rest\<close> holds, whether or not the candidate is the
  requested model and whether or not fallback is enabled.
\<close>

theorem streamText_midstream_failure:
  assumes "map_of tbl modelId = Some modelConfig"
    and "cfg_enabled modelConfig"
    and "getProviderForModel tbl reg modelId = Inr provider"
    and "provider_stream calls modelId = AnthropicProvider_streamText (textStream, Inl err)"
  shows "streamText_loop opts tbl reg provider_stream request_modelId (modelId # rest)
           lastError calls =
           (map text_chunk textStream @ [caught_chunk err], calls @ [modelId]) \<and>
         filter (\<lambda>c. chunk_type c = ErrorChunk)
           (fst (streamText_loop opts tbl reg provider_stream request_modelId (modelId # rest)
                   lastError calls)) = [caught_chunk err] \<and>
         chunk_error (caught_chunk err) = Some (message err)"
proof -
  have run: "streamText_loop opts tbl reg provider_stream request_modelId (modelId # rest)
               lastError calls =
             (map text_chunk textStream @ [caught_chunk err], calls @ [modelId])"
    using assms
    by (simp add: property_of_Own AnthropicProvider_streamText_def forward_chunks_text)
  have one: "filter (\<lambda>c. chunk_type c = ErrorChunk)
               (fst (streamText_loop opts tbl reg provider_stream request_modelId
                       (modelId # rest) lastError calls)) = [caught_chunk err]"
    by (simp only: run fst_conv filter_error_chunks)
  have msg: "chunk_error (caught_chunk err) = Some (message err)"
    by (simp add: caught_chunk_def)
  from run one msg show ?thesis by (intro conjI)
qed

theorem streamText_midstream_failure_witness:
  "streamText aiClient_options modelConfigs aiRegistry_ready resets_after_two
       ''claude-3-5-sonnet-20241022'' =
     (([text_chunk ''Hel'', text_chunk ''lo'', caught_chunk (Error ''connection reset'')], None),
      [''claude-3-5-sonnet-20241022''])"
proof -
  from aiClient_sonnet_candidates obtain others where
    c: "getModelsToTry aiClient_options modelConfigs ''claude-3-5-sonnet-20241022'' =
          Inr (''claude-3-5-sonnet-20241022'' # others)"
    by blast
  have s: "resets_after_two [] ''claude-3-5-sonnet-20241022'' =
             AnthropicProvider_streamText ([''Hel'', ''lo''], Inl (Error ''connection reset''))"
    by (simp add: resets_after_two_def)
  have e: "cfg_enabled (snd (mk_model ''claude-3-5-sonnet-20241022'' ''anthropic'' 200000
                               (3 / 1000) (15 / 1000) Premium))"
    by (simp add: mk_model_def)
  note t = streamText_midstream_failure[where opts = aiClient_options
      and provider_stream = resets_after_two and calls = "[]"
      and request_modelId = "''claude-3-5-sonnet-20241022''" and rest = others
      and lastError = None, OF map_of_sonnet e sonnet_ready s]
  show ?thesis
    unfolding streamText_def c using t[THEN conjunct1] by simp
qed

subsection \<open>The candidate list for a name inherited from \<open>Object.prototype\<close>\<close>

text \<open>
  C9, refuted by the code. The preferred id \<open>constructor\<close> is no key of the table, but
  \<open>modelConfigs["constructor"]\<close> is the inherited \<open>Object\<close> function, which is truthy.
  With fallback enabled \<open>getModelsToTry\<close> therefore calls \<open>getAutomaticFallbacks\<close>, which
  throws a \<open>TypeError\<close> when it reads \<open>preferredConfig.capabilities.contextWindow\<close>: no
  candidate list is produced, and \<open>generateText\<close> throws that error without calling any
  adapter, although the configured fallback Claude 3.5 Haiku would have answered.
\<close>

theorem getModelsToTry_inherited_name:
  "getModelsToTry aiClient_options modelConfigs ''constructor'' =
     Inl (reading_undefined ''contextWindow'') \<and>
   generateText aiClient_options modelConfigs aiRegistry_ready only_haiku_answers
       ''constructor'' =
     (Inl (reading_undefined ''contextWindow''), [])"
proof -
  have "getModelsToTry aiClient_options modelConfigs ''constructor'' =
          Inl (reading_undefined ''contextWindow'')"
    by (simp add: getModelsToTry_def property_of_def Object_prototype_def
        getAutomaticFallbacks_def aiClient_options_def modelConfigs_def mk_model_def
        Object_values_def)
  then show ?thesis by (simp add: generateText_def)
qed

section \<open>Properties of the rate limiter\<close>

subsection \<open>The elapsed-time tests on integer timestamps\<close>

lemma minute_elapsed: "(1 \<le> (of_nat d :: rat) / (1000 * 60)) \<longleftrightarrow> 60000 \<le> d"
proof -
  have "(1 \<le> (of_nat d :: rat) / (1000 * 60)) \<longleftrightarrow> (of_nat 60000 :: rat) \<le> of_nat d"
    by (simp add: field_simps)
  also have "\<dots> \<longleftrightarrow> 60000 \<le> d" by (simp only: of_nat_le_iff)
  finally show ?thesis .
qed

lemma day_elapsed: "(1 \<le> (of_nat d :: rat) / (1000 * 60) / 60 / 24) \<longleftrightarrow> 86400000 \<le> d"
proof -
  have "(1 \<le> (of_nat d :: rat) / (1000 * 60) / 60 / 24) \<longleftrightarrow>
        (of_nat 86400000 :: rat) \<le> of_nat d"
    by (simp add: field_simps)
  also have "\<dots> \<longleftrightarrow> 86400000 \<le> d" by (simp only: of_nat_le_iff)
  finally show ?thesis .
qed

lemma RateLimit_checkInput_cases:
  "RateLimit_checkInput c ctx now st =
     (let uid = userId_of ctx; lim = limits (ctx_userTier ctx);
          e = entry_after_resets now (st uid)
      in if concurrentRequests lim \<le> concurrent e then
           (createResult ''rate_limit'' Block
              (''Too many concurrent requests. Limit: '' @ show_nat (concurrentRequests lim))
              c None Medium 1, st(uid \<mapsto> e))
         else if requestsPerMinute lim \<le> count e then
           (createResult ''rate_limit'' Block
              (''Rate limit exceeded. Limit: '' @ show_nat (requestsPerMinute lim) @
               '' requests per minute'') c None Medium 1, st(uid \<mapsto> e))
         else if tokensPerDay lim < tokens e + estimatedTokens c then
           (createResult ''rate_limit'' Block
              (''Daily token limit exceeded. Limit: '' @ show_nat (tokensPerDay lim) @
               '' tokens per day'') c None Medium 1, st(uid \<mapsto> e))
         else
           (createResult ''rate_limit'' Allow ''Rate limit check passed'' c None Low 1,
            st(uid \<mapsto> e\<lparr>count := count e + 1, tokens := tokens e + estimatedTokens c,
                          concurrent := concurrent e + 1\<rparr>)))"
proof (cases "st (userId_of ctx)")
  case None
  then show ?thesis
    by (simp add: RateLimit_checkInput_def entry_after_resets_def Let_def)
next
  case (Some e)
  have m: "(1 \<le> (of_nat (now - lastReset e) :: rat) / (1000 * 60)) \<longleftrightarrow>
           lastReset e + 60000 \<le> now"
    unfolding minute_elapsed by auto
  have d: "(1 \<le> (of_nat (now - lastReset e) :: rat) / (1000 * 60) / 60 / 24) \<longleftrightarrow>
           lastReset e + 86400000 \<le> now"
    unfolding day_elapsed by auto
  have r: "(if lastReset e + 86400000 \<le> now
            then (if lastReset e + 60000 \<le> now then e\<lparr>count := 0, lastReset := now\<rparr> else e)
                   \<lparr>tokens := 0\<rparr>
            else (if lastReset e + 60000 \<le> now then e\<lparr>count := 0, lastReset := now\<rparr> else e)) =
           entry_after_resets now (Some e)"
    by (cases e) (simp add: entry_after_resets_def)
  show ?thesis
    unfolding RateLimit_checkInput_def Let_def Some option.case m d r
    by (simp add: not_le not_less)
qed

lemma limits_positive:
  "0 < concurrentRequests (limits tier)" "0 < requestsPerMinute (limits tier)"
  by (cases tier; simp add: limits_def)+

lemma RateLimit_request_in_window:
  assumes "st (userId_of ctx) = Some e"
    and "now < lastReset e + 60000"
    and "concurrent e < concurrentRequests (limits (ctx_userTier ctx))"
    and "count e < requestsPerMinute (limits (ctx_userTier ctx))"
    and "tokens e + estimatedTokens c \<le> tokensPerDay (limits (ctx_userTier ctx))"
  shows "RateLimit_request ctx (now, c) st =
           (createResult ''rate_limit'' Allow ''Rate limit check passed'' c None Low 1,
            st(userId_of ctx \<mapsto> e\<lparr>count := count e + 1,
                                    tokens := tokens e + estimatedTokens c\<rparr>))"
proof -
  have ear: "entry_after_resets now (Some e) = e"
    using assms(2) by (cases e) (simp add: entry_after_resets_def)
  show ?thesis
    using assms
    by (simp add: RateLimit_request_def RateLimit_checkInput_cases RateLimit_checkOutput_def
        Let_def ear not_le)
qed

lemma RateLimit_requests_in_window:
  assumes "st (userId_of ctx) = Some e"
    and "\<forall>r \<in> set reqs. fst r < lastReset e + 60000"
    and "concurrent e < concurrentRequests (limits (ctx_userTier ctx))"
    and "count e + length reqs \<le> requestsPerMinute (limits (ctx_userTier ctx))"
    and "tokens e + sum_list (map (\<lambda>r. estimatedTokens (snd r)) reqs)
           \<le> tokensPerDay (limits (ctx_userTier ctx))"
  shows "RateLimit_requests ctx reqs st =
           (map (\<lambda>r. createResult ''rate_limit'' Allow ''Rate limit check passed'' (snd r) None
                       Low 1) reqs,
            st(userId_of ctx \<mapsto>
                 e\<lparr>count := count e + length reqs,
                   tokens := tokens e + sum_list (map (\<lambda>r. estimatedTokens (snd r)) reqs)\<rparr>))"
  using assms
proof (induction reqs arbitrary: st e)
  case Nil
  then show ?case by (simp add: map_upd_triv)
next
  case (Cons r rs)
  obtain now c where r: "r = (now, c)" by (cases r)
  let ?e1 = "e\<lparr>count := count e + 1, tokens := tokens e + estimatedTokens c\<rparr>"
  let ?st1 = "st(userId_of ctx \<mapsto> ?e1)"
  have step: "RateLimit_request ctx (now, c) st =
      (createResult ''rate_limit'' Allow ''Rate limit check passed'' c None Low 1, ?st1)"
    using Cons.prems r by (intro RateLimit_request_in_window) auto
  have ih: "RateLimit_requests ctx rs ?st1 =
      (map (\<lambda>r. createResult ''rate_limit'' Allow ''Rate limit check passed'' (snd r) None
                  Low 1) rs,
       ?st1(userId_of ctx \<mapsto>
            ?e1\<lparr>count := count ?e1 + length rs,
                 tokens := tokens ?e1 + sum_list (map (\<lambda>r. estimatedTokens (snd r)) rs)\<rparr>))"
    using Cons.prems r by (intro Cons.IH) auto
  show ?case
    unfolding r RateLimit_requests.simps step ih prod.case
    by (auto simp: add.assoc fun_eq_iff)
qed

lemma RateLimit_first_request:
  assumes start: "case st (userId_of ctx) of
                    None \<Rightarrow> True
                  | Some e \<Rightarrow> lastReset e + 60000 \<le> now \<and>
                             concurrent e < concurrentRequests (limits (ctx_userTier ctx))"
    and budget: "(case st (userId_of ctx) of None \<Rightarrow> 0 | Some e \<Rightarrow> tokens e) +
                   estimatedTokens c \<le> tokensPerDay (limits (ctx_userTier ctx))"
  shows "\<exists>e1. RateLimit_request ctx (now, c) st =
           (createResult ''rate_limit'' Allow ''Rate limit check passed'' c None Low 1,
            st(userId_of ctx \<mapsto> e1)) \<and>
          count e1 = 1 \<and> lastReset e1 = now \<and>
          concurrent e1 < concurrentRequests (limits (ctx_userTier ctx)) \<and>
          tokens e1 \<le> (case st (userId_of ctx) of None \<Rightarrow> 0 | Some e \<Rightarrow> tokens e) +
                       estimatedTokens c"
proof (cases "st (userId_of ctx)")
  case None
  then show ?thesis
    using budget limits_positive[of "ctx_userTier ctx"]
    by (intro exI[of _ "\<lparr>count = 1, tokens = estimatedTokens c, lastReset = now,
                          concurrent = 0\<rparr>"])
       (simp add: RateLimit_request_def RateLimit_checkInput_cases RateLimit_checkOutput_def
         Let_def entry_after_resets_def not_le)
next
  case (Some e)
  then show ?thesis
    using start budget limits_positive[of "ctx_userTier ctx"]
    by (intro exI[of _ "\<lparr>count = 1,
                          tokens = (if lastReset e + 86400000 \<le> now then 0 else tokens e) +
                                   estimatedTokens c,
                          lastReset = now, concurrent = concurrent e\<rparr>"])
       (simp add: RateLimit_request_def RateLimit_checkInput_cases RateLimit_checkOutput_def
         Let_def entry_after_resets_def not_le)
qed

lemma RateLimit_request_over_limit:
  assumes "st (userId_of ctx) = Some e"
    and "now < lastReset e + 60000"
    and "concurrent e < concurrentRequests (limits (ctx_userTier ctx))"
    and "requestsPerMinute (limits (ctx_userTier ctx)) \<le> count e"
  shows "RateLimit_request ctx (now, c) st =
           (createResult ''rate_limit'' Block
              (''Rate limit exceeded. Limit: '' @
               show_nat (requestsPerMinute (limits (ctx_userTier ctx))) @
               '' requests per minute'') c None Medium 1,
            st(userId_of ctx \<mapsto> e\<lparr>concurrent := concurrent e - 1\<rparr>))"
proof -
  have ear: "entry_after_resets now (Some e) = e"
    using assms(2) by (cases e) (simp add: entry_after_resets_def)
  show ?thesis
    using assms
    by (cases "concurrent e = 0")
       (simp_all add: RateLimit_request_def RateLimit_checkInput_cases RateLimit_checkOutput_def
         Let_def ear not_le map_upd_triv)
qed

lemma RateLimit_checkInput_after_window:
  assumes "st (userId_of ctx) = Some e"
    and "lastReset e + 60000 \<le> now"
    and "concurrent e < concurrentRequests (limits (ctx_userTier ctx))"
    and "tokens e + estimatedTokens c \<le> tokensPerDay (limits (ctx_userTier ctx))"
  shows "fst (RateLimit_checkInput c ctx now st) =
           createResult ''rate_limit'' Allow ''Rate limit check passed'' c None Low 1"
  using assms limits_positive[of "ctx_userTier ctx"]
  by (simp add: RateLimit_checkInput_cases Let_def entry_after_resets_def not_le)

text \<open>
  C6, as the code has it. The limiter counts in fixed windows: a window opens at the
  identity's first request, or at the first request that comes a minute or more after the
  current window opened. Take any identity and tier, and let the first of N requests (N the
  tier's per-minute limit) open a window: the identity is new, or its window started a
  minute or more ago, with fewer in-flight requests than the concurrency limit. If the
  other N - 1 requests come less than a minute after the first, each request is released
  by \<open>checkOutput\<close> before the next, and the daily token budget covers all of them, then
  all N are allowed, a further \<open>checkInput\<close> less than a minute after the first is refused
  with the reason "Rate limit exceeded. Limit: N requests per minute", and a \<open>checkInput\<close>
  a minute or more after the first is allowed.
\<close>

theorem RateLimit_minute_window:
  assumes start: "case st (userId_of ctx) of
                    None \<Rightarrow> True
                  | Some e \<Rightarrow> lastReset e + 60000 \<le> t0 \<and>
                             concurrent e < concurrentRequests (limits (ctx_userTier ctx))"
    and N: "length ((t0, c0) # rest) = requestsPerMinute (limits (ctx_userTier ctx))"
    and window: "\<forall>r \<in> set rest. fst r < t0 + 60000"
    and budget: "(case st (userId_of ctx) of None \<Rightarrow> 0 | Some e \<Rightarrow> tokens e) +
                 sum_list (map (\<lambda>r. estimatedTokens (snd r)) ((t0, c0) # rest)) +
                 estimatedTokens c_late \<le> tokensPerDay (limits (ctx_userTier ctx))"
    and next_in: "t_next < t0 + 60000"
    and late: "t0 + 60000 \<le> t_late"
  shows "case RateLimit_requests ctx ((t0, c0) # rest) st of
           (verdicts, st1) \<Rightarrow>
             length verdicts = requestsPerMinute (limits (ctx_userTier ctx)) \<and>
             (\<forall>v \<in> set verdicts. action v = Allow) \<and>
             (case RateLimit_request ctx (t_next, c_next) st1 of
                (refused, st2) \<Rightarrow>
                  action refused = Block \<and>
                  reason refused =
                    ''Rate limit exceeded. Limit: '' @
                    show_nat (requestsPerMinute (limits (ctx_userTier ctx))) @
                    '' requests per minute'' \<and>
                  action (fst (RateLimit_checkInput c_late ctx t_late st2)) = Allow)"
proof -
  let ?uid = "userId_of ctx"
  let ?lim = "limits (ctx_userTier ctx)"
  let ?T0 = "case st ?uid of None \<Rightarrow> 0 | Some e \<Rightarrow> tokens e"
  let ?sum = "sum_list (map (\<lambda>r. estimatedTokens (snd r)) rest)"
  have b0: "?T0 + estimatedTokens c0 \<le> tokensPerDay ?lim"
    using budget by simp
  from RateLimit_first_request[where st = st and ctx = ctx and now = t0 and c = c0,
         OF start b0]
  obtain e1 where first:
      "RateLimit_request ctx (t0, c0) st =
         (createResult ''rate_limit'' Allow ''Rate limit check passed'' c0 None Low 1,
          st(?uid \<mapsto> e1))"
    and e1: "count e1 = 1" "lastReset e1 = t0" "concurrent e1 < concurrentRequests ?lim"
            "tokens e1 \<le> ?T0 + estimatedTokens c0"
    by blast
  let ?st1 = "st(?uid \<mapsto> e1)"
  let ?e2 = "e1\<lparr>count := count e1 + length rest, tokens := tokens e1 + ?sum\<rparr>"
  let ?st2 = "?st1(?uid \<mapsto> ?e2)"
  have rest: "RateLimit_requests ctx rest ?st1 =
      (map (\<lambda>r. createResult ''rate_limit'' Allow ''Rate limit check passed'' (snd r) None
                  Low 1) rest, ?st2)"
    using e1 window N budget
    by (intro RateLimit_requests_in_window) auto
  have run: "RateLimit_requests ctx ((t0, c0) # rest) st =
      (createResult ''rate_limit'' Allow ''Rate limit check passed'' c0 None Low 1 #
       map (\<lambda>r. createResult ''rate_limit'' Allow ''Rate limit check passed'' (snd r) None
                  Low 1) rest, ?st2)"
    by (simp add: first rest)
  let ?e3 = "?e2\<lparr>concurrent := concurrent ?e2 - 1\<rparr>"
  let ?st3 = "?st2(?uid \<mapsto> ?e3)"
  have refused: "RateLimit_request ctx (t_next, c_next) ?st2 =
      (createResult ''rate_limit'' Block
         (''Rate limit exceeded. Limit: '' @ show_nat (requestsPerMinute ?lim) @
          '' requests per minute'') c_next None Medium 1, ?st3)"
    using e1 next_in N
    by (intro RateLimit_request_over_limit) auto
  have later: "fst (RateLimit_checkInput c_late ctx t_late ?st3) =
      createResult ''rate_limit'' Allow ''Rate limit check passed'' c_late None Low 1"
    using e1 late budget
    by (intro RateLimit_checkInput_after_window[where e = ?e3]) auto
  show ?thesis
    unfolding run prod.case refused later
    using N by (auto simp: createResult_def)
qed

theorem RateLimit_minute_window_witness:
  "action (fst (RateLimit_request free_user (10000, ''ping'')
                  (snd (RateLimit_requests free_user ten_pings Map.empty)))) = Block \<and>
   reason (fst (RateLimit_request free_user (10000, ''ping'')
                  (snd (RateLimit_requests free_user ten_pings Map.empty)))) =
     ''Rate limit exceeded. Limit: 10 requests per minute'' \<and>
   action (fst (RateLimit_checkInput ''ping'' free_user 60000
                  (snd (RateLimit_request free_user (10000, ''ping'')
                     (snd (RateLimit_requests free_user ten_pings Map.empty)))))) = Allow"
  using RateLimit_minute_window[where ctx = free_user and st = Map.empty and ?t0.0 = 0
      and ?c0.0 = "''ping''" and rest = "tl ten_pings" and c_late = "''ping''"
      and t_next = 10000 and c_next = "''ping''" and t_late = 60000]
  by (simp add: ten_pings_def free_user_def limits_def estimatedTokens_def split_beta
      show_nat.simps)

text \<open>
  The claim as stated fails for requests that straddle the end of a window. A free-tier
  identity (limit 10) makes one request at 0 s and eleven more from 50 s to 70 s, two
  seconds apart, each released before the next. The window opened at 0 s ends at 60 s and
  the count starts again, so all eleven are allowed, although ten of them had been
  accepted within the twenty seconds before the eleventh.
\<close>

theorem RateLimit_minute_window_counterexample:
  "map action (fst (RateLimit_requests free_user late_burst Map.empty)) =
     [Allow, Allow, Allow, Allow, Allow, Allow, Allow, Allow, Allow, Allow, Allow, Allow]"
  by (simp add: late_burst_def RateLimit_request_def RateLimit_checkInput_cases
      RateLimit_checkOutput_def Let_def entry_after_resets_def free_user_def userId_of_def
      limits_def estimatedTokens_def createResult_def)

subsection \<open>The daily token window\<close>

text \<open>
  The day is measured from \<open>lastReset\<close>, which every call a minute or more after it moves
  to \<open>now\<close>. So along any run in which each call comes at least a minute and less than a
  day after the previous one, the token counter is never reset, however long the run.
\<close>

lemma RateLimit_request_active_step:
  assumes "st (userId_of ctx) = Some e"
    and "lastReset e + 60000 \<le> now" and "now < lastReset e + 86400000"
  shows "\<exists>e'. snd (RateLimit_request ctx (now, c) st) (userId_of ctx) = Some e' \<and>
              tokens e \<le> tokens e' \<and> lastReset e' = now"
  using assms
  by (simp add: RateLimit_request_def RateLimit_checkInput_cases RateLimit_checkOutput_def
      Let_def entry_after_resets_def split_beta)

lemma RateLimit_tokens_kept_while_active:
  assumes "st (userId_of ctx) = Some e"
    and "active (lastReset e) (map fst reqs)"
  shows "\<exists>e'. snd (RateLimit_requests ctx reqs st) (userId_of ctx) = Some e' \<and>
              tokens e \<le> tokens e' \<and>
              lastReset e' = last (lastReset e # map fst reqs)"
  using assms
proof (induction reqs arbitrary: st e)
  case Nil
  then show ?case by simp
next
  case (Cons r rs)
  obtain now c where r: "r = (now, c)" by (cases r)
  from Cons.prems r have t: "lastReset e + 60000 \<le> now" "now < lastReset e + 86400000"
    and a: "active now (map fst rs)" by simp_all
  from RateLimit_request_active_step[where st = st and ctx = ctx and c = c, OF Cons.prems(1) t]
  obtain e1 where e1: "snd (RateLimit_request ctx (now, c) st) (userId_of ctx) = Some e1"
      "tokens e \<le> tokens e1" "lastReset e1 = now"
    by blast
  from Cons.IH[where st = "snd (RateLimit_request ctx (now, c) st)", OF e1(1)] a e1(3)
  obtain e' where e': "snd (RateLimit_requests ctx rs (snd (RateLimit_request ctx (now, c) st)))
                         (userId_of ctx) = Some e'"
      "tokens e1 \<le> tokens e'" "lastReset e' = last (now # map fst rs)"
    by auto
  show ?case
    using e1 e' r by (auto simp: split_beta)
qed

text \<open>
  C5 at a concrete run: a free-tier identity sends a four-character payload at times 0,
  50 000 000 and 100 000 000 ms. The third call comes more than a day (86 400 000 ms)
  after the token window began, yet the counter is not reset: it holds the tokens of all
  three requests, and \<open>lastReset\<close> has followed the calls.
\<close>

theorem RateLimit_daily_reset_missed:
  "map_option (\<lambda>e. (tokens e, lastReset e))
     (snd (RateLimit_requests free_user
             [(0, ''ping''), (50000000, ''ping''), (100000000, ''ping'')] Map.empty) ''u1'') =
   Some (3, 100000000)"
  by (simp add: RateLimit_request_def RateLimit_checkInput_cases RateLimit_checkOutput_def
      Let_def entry_after_resets_def free_user_def userId_of_def limits_def
      estimatedTokens_def)


section \<open>Properties of the guardrail rules\<close>

subsection \<open>Matching consumes input; replacing removes a match\<close>


lemma suffix_not_shorter:
  assumes "s = u @ t" and "\<not> length t < length s"
  shows "t = s"
proof -
  have "length s = length u + length t" unfolding assms(1) by simp
  with assms(2) have "u = []" by simp
  then show ?thesis unfolding assms(1) by simp
qed







lemma RegExp_test_source: "source (snd (RegExp_test regexp s)) = source regexp"
  by (auto simp: RegExp_test_def split: option.splits)


subsection \<open>Redaction by the content safety rule\<close>





section \<open>Properties of the guardrails middleware\<close>

subsection \<open>The rule loop\<close>

lemma apply_action_fields:
  "results (apply_action v vars) = results vars"
  "executed (apply_action v vars) = executed vars"
  "processedContent (apply_action v vars) = next_content (processedContent vars) v"
  "action v = Block \<Longrightarrow> blocked (apply_action v vars)"
  by (auto simp: apply_action_def next_content_def split: action.splits option.splits)

lemma contents_seen_append:
  "contents_seen c (vs @ [v]) = contents_seen c vs @ [foldl next_content c vs]"
  by (induction vs arbitrary: c) simp_all

lemma run_guardrails_Nil_results:
  "run_guardrails config content' ctx [] vars w = (vars, w)"
  by simp

text \<open>One step of the loop for a rule that returns a verdict.\<close>

lemma run_guardrails_stop:
  assumes "g_enabled g"
    and "g_checkInput g (processedContent vars) ctx w = (Inr v, w')"
    and "blocked (apply_action v
           (vars\<lparr>results := results vars @ [v],
                 executed := executed vars @ [(g_type g, processedContent vars)]\<rparr>)) \<and>
         strictMode config"
  shows "run_guardrails config content' ctx (g # gs) vars w =
           (apply_action v
              (vars\<lparr>results := results vars @ [v],
                    executed := executed vars @ [(g_type g, processedContent vars)]\<rparr>), w')"
  using assms by (simp add: Let_def)

lemma run_guardrails_continue:
  assumes "g_enabled g"
    and "g_checkInput g (processedContent vars) ctx w = (Inr v, w')"
    and "\<not> (blocked (apply_action v
           (vars\<lparr>results := results vars @ [v],
                 executed := executed vars @ [(g_type g, processedContent vars)]\<rparr>)) \<and>
         strictMode config)"
  shows "run_guardrails config content' ctx (g # gs) vars w =
           run_guardrails config content' ctx gs
             (apply_action v
                (vars\<lparr>results := results vars @ [v],
                      executed := executed vars @ [(g_type g, processedContent vars)]\<rparr>)) w'"
  using assms by (auto simp: Let_def)

lemma run_guardrails_chain:
  assumes "\<forall>g \<in> set gs. never_throws g"
  shows "\<exists>rs. results (fst (run_guardrails config content' ctx gs vars w)) =
                 results vars @ rs \<and>
              map snd (executed (fst (run_guardrails config content' ctx gs vars w))) =
                 map snd (executed vars) @ contents_seen (processedContent vars) rs \<and>
              processedContent (fst (run_guardrails config content' ctx gs vars w)) =
                 foldl next_content (processedContent vars) rs \<and>
              list_all2 (produced ctx) (take (length rs) (filter g_enabled gs)) rs \<and>
              map fst (executed (fst (run_guardrails config content' ctx gs vars w))) =
                 map fst (executed vars) @
                 map g_type (take (length rs) (filter g_enabled gs)) \<and>
              (strictMode config \<longrightarrow> (\<forall>v \<in> set (butlast rs). action v \<noteq> Block)) \<and>
              (\<not> strictMode config \<longrightarrow>
                 map fst (executed (fst (run_guardrails config content' ctx gs vars w))) =
                   map fst (executed vars) @ map g_type (filter g_enabled gs) \<and>
                 length rs = length (filter g_enabled gs))"
  using assms
proof (induction gs arbitrary: vars w)
  case Nil
  show ?case by (intro exI[of _ "[]"]) simp
next
  case (Cons g gs)
  show ?case
  proof (cases "g_enabled g")
    case False
    from Cons.IH[of vars w] Cons.prems
    show ?thesis using False by simp
  next
    case True
    from Cons.prems have "never_throws g" by simp
    then obtain v w' where call: "g_checkInput g (processedContent vars) ctx w = (Inr v, w')"
      unfolding never_throws_def by blast
    have pv: "produced ctx g v"
      unfolding produced_def using call by (intro exI[of _ "processedContent vars"] exI[of _ w]) simp
    let ?vars1 = "apply_action v (vars\<lparr>results := results vars @ [v],
                      executed := executed vars @ [(g_type g, processedContent vars)]\<rparr>)"
    have f1: "results ?vars1 = results vars @ [v]"
      "executed ?vars1 = executed vars @ [(g_type g, processedContent vars)]"
      "processedContent ?vars1 = next_content (processedContent vars) v"
      by (simp_all add: apply_action_fields)
    show ?thesis
    proof (cases "blocked ?vars1 \<and> strictMode config")
      case True
      have r: "run_guardrails config content' ctx (g # gs) vars w = (?vars1, w')"
        using \<open>g_enabled g\<close> call True by (rule run_guardrails_stop)
      show ?thesis
        unfolding r using True f1 pv \<open>g_enabled g\<close> by (intro exI[of _ "[v]"]) simp
    next
      case False
      have r: "run_guardrails config content' ctx (g # gs) vars w =
                    run_guardrails config content' ctx gs ?vars1 w'"
        using \<open>g_enabled g\<close> call False by (rule run_guardrails_continue)
      from Cons.prems have rest: "\<forall>g \<in> set gs. never_throws g" by simp
      from Cons.IH[OF rest, of ?vars1 w'] obtain rs where rs:
        "results (fst (run_guardrails config content' ctx gs ?vars1 w')) =
           results ?vars1 @ rs"
        "map snd (executed (fst (run_guardrails config content' ctx gs ?vars1 w'))) =
           map snd (executed ?vars1) @ contents_seen (processedContent ?vars1) rs"
        "processedContent (fst (run_guardrails config content' ctx gs ?vars1 w')) =
           foldl next_content (processedContent ?vars1) rs"
        "list_all2 (produced ctx) (take (length rs) (filter g_enabled gs)) rs"
        "map fst (executed (fst (run_guardrails config content' ctx gs ?vars1 w'))) =
           map fst (executed ?vars1) @ map g_type (take (length rs) (filter g_enabled gs))"
        "strictMode config \<longrightarrow> (\<forall>v \<in> set (butlast rs). action v \<noteq> Block)"
        "\<not> strictMode config \<longrightarrow>
           map fst (executed (fst (run_guardrails config content' ctx gs ?vars1 w'))) =
             map fst (executed ?vars1) @ map g_type (filter g_enabled gs) \<and>
           length rs = length (filter g_enabled gs)"
        by blast
      have nb: "strictMode config \<longrightarrow> action v \<noteq> Block"
        using False apply_action_fields(4) by blast
      show ?thesis
        unfolding r using rs f1 pv nb \<open>g_enabled g\<close>
        by (intro exI[of _ "v # rs"]) simp
    qed
  qed
qed

subsection \<open>The four shipped rules\<close>

lemma initializeGuardrails_list:
  "initializeGuardrails =
     [RateLimitGuardrail, ContentSafetyGuardrail, PromptInjectionGuardrail, CompletenessGuardrail]"
  by (simp add: initializeGuardrails_def RateLimitGuardrail_def ContentSafetyGuardrail_def
      PromptInjectionGuardrail_def CompletenessGuardrail_def)

lemma builtin_enabled:
  "filter g_enabled initializeGuardrails = initializeGuardrails"
  "map g_type initializeGuardrails =
     [''rate_limit'', ''content_safety'', ''prompt_injection'', ''completeness'']"
  "length initializeGuardrails = 4"
  by (simp_all add: initializeGuardrails_list RateLimitGuardrail_def ContentSafetyGuardrail_def
      PromptInjectionGuardrail_def CompletenessGuardrail_def)

lemma builtin_never_throw: "\<forall>g \<in> set initializeGuardrails. never_throws g"
  by (simp add: initializeGuardrails_list never_throws_def RateLimitGuardrail_def
      ContentSafetyGuardrail_def PromptInjectionGuardrail_def CompletenessGuardrail_def
      split_beta)





lemma processInput_rules_run:
  assumes "enabled config" and "\<not> isWhitelisted config compile content'"
    and "\<forall>g \<in> set guardrails. never_throws g"
  shows "\<exists>rs. result_results (fst (processInput config compile guardrails content' ctx w)) =
                 (if isBlacklisted config compile content' then [blacklist_verdict content']
                  else []) @ rs \<and>
              map snd (result_executed
                         (fst (processInput config compile guardrails content' ctx w))) =
                 contents_seen content' rs \<and>
              result_content (fst (processInput config compile guardrails content' ctx w)) =
                 foldl next_content content' rs \<and>
              list_all2 (produced ctx) (take (length rs) (filter g_enabled guardrails)) rs \<and>
              map fst (result_executed
                         (fst (processInput config compile guardrails content' ctx w))) =
                 map g_type (take (length rs) (filter g_enabled guardrails)) \<and>
              (strictMode config \<longrightarrow> (\<forall>v \<in> set (butlast rs). action v \<noteq> Block)) \<and>
              (\<not> strictMode config \<longrightarrow>
                 map fst (result_executed
                            (fst (processInput config compile guardrails content' ctx w))) =
                   map g_type (filter g_enabled guardrails) \<and>
                 length rs = length (filter g_enabled guardrails))"
proof -
  let ?v0 = "\<lparr>results = [], processedContent = content', blocked = False, flagged = False,
              executed = []\<rparr>"
  let ?vars = "if isBlacklisted config compile content'
               then ?v0\<lparr>blocked := True, results := results ?v0 @ [blacklist_verdict content']\<rparr>
               else ?v0"
  from run_guardrails_chain[OF assms(3), of config "content'" ctx ?vars w]
  obtain rs where rs:
    "results (fst (run_guardrails config content' ctx guardrails ?vars w)) =
       results ?vars @ rs"
    "map snd (executed (fst (run_guardrails config content' ctx guardrails ?vars w))) =
       map snd (executed ?vars) @ contents_seen (processedContent ?vars) rs"
    "processedContent (fst (run_guardrails config content' ctx guardrails ?vars w)) =
       foldl next_content (processedContent ?vars) rs"
    "list_all2 (produced ctx) (take (length rs) (filter g_enabled guardrails)) rs"
    "map fst (executed (fst (run_guardrails config content' ctx guardrails ?vars w))) =
       map fst (executed ?vars) @ map g_type (take (length rs) (filter g_enabled guardrails))"
    "strictMode config \<longrightarrow> (\<forall>v \<in> set (butlast rs). action v \<noteq> Block)"
    "\<not> strictMode config \<longrightarrow>
       map fst (executed (fst (run_guardrails config content' ctx guardrails ?vars w))) =
         map fst (executed ?vars) @ map g_type (filter g_enabled guardrails) \<and>
       length rs = length (filter g_enabled guardrails)"
    by blast
  have p: "fst (processInput config compile guardrails content' ctx w) =
      (let vars = fst (run_guardrails config content' ctx guardrails ?vars w)
       in \<lparr>allowed = \<not> blocked vars, result_content = processedContent vars,
            result_results = results vars, result_flagged = Some (flagged vars),
            result_executed = executed vars,
            logged = logResults config (results vars) ''input''\<rparr>)"
    using assms(1,2) by (simp add: processInput_def Let_def split_beta)
  show ?thesis
    unfolding p Let_def using rs
    by (intro exI[of _ rs]) (auto split: if_splits)
qed




subsection \<open>Whitelist short-circuit\<close>




lemma internal_test_blacklisted:
  "isBlacklisted lists_config literal_engine ''An INTERNAL TEST of forbidden things''"
  by code_simp



subsection \<open>Strict and lenient mode\<close>

lemma processInput_strict_imp:
  "enabled config \<and> strictMode config \<and> \<not> isWhitelisted config compile c \<and>
   (\<forall>g \<in> set guardrails. never_throws g) \<longrightarrow>
     (\<exists>rs. result_results (fst (processInput config compile guardrails c ctx w)) =
             (if isBlacklisted config compile c then [blacklist_verdict c] else []) @ rs \<and>
           map fst (result_executed (fst (processInput config compile guardrails c ctx w))) =
             map g_type (take (length rs) (filter g_enabled guardrails)) \<and>
           (\<forall>v \<in> set (butlast rs). action v \<noteq> Block))"
proof
  assume a: "enabled config \<and> strictMode config \<and> \<not> isWhitelisted config compile c \<and>
    (\<forall>g \<in> set guardrails. never_throws g)"
  then have en: "enabled config" and s: "strictMode config"
    and nw: "\<not> isWhitelisted config compile c"
    and nt: "\<forall>g \<in> set guardrails. never_throws g"
    by simp_all
  from processInput_rules_run[where ctx = ctx and w = w, OF en nw nt] s
  show "\<exists>rs. result_results (fst (processInput config compile guardrails c ctx w)) =
             (if isBlacklisted config compile c then [blacklist_verdict c] else []) @ rs \<and>
           map fst (result_executed (fst (processInput config compile guardrails c ctx w))) =
             map g_type (take (length rs) (filter g_enabled guardrails)) \<and>
           (\<forall>v \<in> set (butlast rs). action v \<noteq> Block)"
    by blast
qed

lemma processInput_lenient_imp:
  "enabled config \<and> \<not> strictMode config \<and> \<not> isWhitelisted config compile c \<and>
   (\<forall>g \<in> set guardrails. never_throws g) \<longrightarrow>
     map fst (result_executed (fst (processInput config compile guardrails c ctx w))) =
       map g_type (filter g_enabled guardrails) \<and>
     (\<exists>rs. result_results (fst (processInput config compile guardrails c ctx w)) =
             (if isBlacklisted config compile c then [blacklist_verdict c] else []) @ rs \<and>
           length rs = length (filter g_enabled guardrails))"
proof
  assume a: "enabled config \<and> \<not> strictMode config \<and> \<not> isWhitelisted config compile c \<and>
    (\<forall>g \<in> set guardrails. never_throws g)"
  then have en: "enabled config" and ns: "\<not> strictMode config"
    and nw: "\<not> isWhitelisted config compile c"
    and nt: "\<forall>g \<in> set guardrails. never_throws g"
    by simp_all
  from processInput_rules_run[where ctx = ctx and w = w, OF en nw nt] ns
  show "map fst (result_executed (fst (processInput config compile guardrails c ctx w))) =
        map g_type (filter g_enabled guardrails) \<and>
      (\<exists>rs. result_results (fst (processInput config compile guardrails c ctx w)) =
              (if isBlacklisted config compile c then [blacklist_verdict c] else []) @ rs \<and>
            length rs = length (filter g_enabled guardrails))"
    by blast
qed

text \<open>
  C3. \<open>processInput\<close> on a payload that is not whitelisted, with the pipeline enabled and
  rules whose \<open>checkInput\<close> always returns a verdict (as the four shipped rules do). With
  \<open>strictMode\<close> set, the rules executed are an initial segment of the enabled rules in
  priority order, each with one verdict, and no verdict but the last one is a \<open>block\<close>:
  after a rule has returned a block verdict no later rule's \<open>checkInput\<close> executes. With
  \<open>strictMode\<close> unset, every enabled rule's \<open>checkInput\<close> executes, in order, whatever the
  earlier verdicts were, and the verdict list is the blacklist entry, if the payload
  matched the blacklist, followed by exactly one verdict per enabled rule.
\<close>

theorem processInput_strict_mode:
  "(enabled config \<and> strictMode config \<and> \<not> isWhitelisted config compile c \<and>
    (\<forall>g \<in> set guardrails. never_throws g) \<longrightarrow>
      (\<exists>rs. result_results (fst (processInput config compile guardrails c ctx w)) =
              (if isBlacklisted config compile c then [blacklist_verdict c] else []) @ rs \<and>
            map fst (result_executed (fst (processInput config compile guardrails c ctx w))) =
              map g_type (take (length rs) (filter g_enabled guardrails)) \<and>
            (\<forall>v \<in> set (butlast rs). action v \<noteq> Block))) \<and>
   (enabled config \<and> \<not> strictMode config \<and> \<not> isWhitelisted config compile c \<and>
    (\<forall>g \<in> set guardrails. never_throws g) \<longrightarrow>
      map fst (result_executed (fst (processInput config compile guardrails c ctx w))) =
        map g_type (filter g_enabled guardrails) \<and>
      (\<exists>rs. result_results (fst (processInput config compile guardrails c ctx w)) =
              (if isBlacklisted config compile c then [blacklist_verdict c] else []) @ rs \<and>
            length rs = length (filter g_enabled guardrails)))"
  using processInput_strict_imp processInput_lenient_imp by (rule conjI)

lemma forbidden_kill_blacklisted:
  "isBlacklisted blacklist_config literal_engine ''a forbidden kill''"
  by code_simp

lemma strict_kill_verdicts:
  "map action (result_results (fst (processInput strict_config literal_engine
     initializeGuardrails ''a forbidden kill'' free_user new_world))) = [Allow, Block]"
  by code_simp

lemma lenient_kill_verdicts:
  "map action (result_results (fst (processInput blacklist_config literal_engine
     initializeGuardrails ''a forbidden kill'' free_user new_world))) =
     [Block, Allow, Block, Allow, Allow]"
  by code_simp

theorem processInput_strict_mode_witness:
  "map action (result_results (fst (processInput strict_config literal_engine
     initializeGuardrails ''a forbidden kill'' free_user new_world))) = [Allow, Block] \<and>
   map fst (result_executed (fst (processInput strict_config literal_engine
              initializeGuardrails ''a forbidden kill'' free_user new_world))) =
     [''rate_limit'', ''content_safety''] \<and>
   map action (result_results (fst (processInput blacklist_config literal_engine
     initializeGuardrails ''a forbidden kill'' free_user new_world))) =
     [Block, Allow, Block, Allow, Allow] \<and>
   map fst (result_executed (fst (processInput blacklist_config literal_engine
              initializeGuardrails ''a forbidden kill'' free_user new_world))) =
     [''rate_limit'', ''content_safety'', ''prompt_injection'', ''completeness'']"
proof -
  let ?c = "''a forbidden kill''"
  let ?s = "fst (processInput strict_config literal_engine initializeGuardrails ?c free_user
                   new_world)"
  have h1: "enabled strict_config \<and> strictMode strict_config \<and>
            \<not> isWhitelisted strict_config literal_engine ?c \<and>
            (\<forall>g \<in> set initializeGuardrails. never_throws g)"
    using builtin_never_throw
    by (simp add: strict_config_def guardrailsMiddleware_config_def isWhitelisted_def)
  have h2: "enabled blacklist_config \<and> \<not> strictMode blacklist_config \<and>
            \<not> isWhitelisted blacklist_config literal_engine ?c \<and>
            (\<forall>g \<in> set initializeGuardrails. never_throws g)"
    using builtin_never_throw
    by (simp add: blacklist_config_def guardrailsMiddleware_config_def isWhitelisted_def)
  have nb: "\<not> isBlacklisted strict_config literal_engine ?c"
    by (simp add: strict_config_def guardrailsMiddleware_config_def isBlacklisted_def)
  note t = processInput_strict_mode[where config = strict_config
      and compile = literal_engine and guardrails = initializeGuardrails and ctx = free_user
      and w = new_world and c = ?c]
  note u = processInput_strict_mode[where config = blacklist_config
      and compile = literal_engine and guardrails = initializeGuardrails and ctx = free_user
      and w = new_world and c = ?c]
  from t[THEN conjunct1, THEN mp, OF h1] nb
  have "map fst (result_executed ?s) =
          map g_type (take (length (result_results ?s)) (filter g_enabled initializeGuardrails))"
    by auto
  moreover have "length (result_results ?s) = 2"
    using strict_kill_verdicts[THEN arg_cong, of length] by simp
  ultimately have a: "map fst (result_executed ?s) = [''rate_limit'', ''content_safety'']"
    by (simp add: builtin_enabled initializeGuardrails_list take_map[symmetric]
        RateLimitGuardrail_def ContentSafetyGuardrail_def numeral_2_eq_2)
  from u[THEN conjunct2, THEN mp, OF h2]
  have b: "map fst (result_executed (fst (processInput blacklist_config literal_engine
              initializeGuardrails ?c free_user new_world))) =
             [''rate_limit'', ''content_safety'', ''prompt_injection'', ''completeness'']"
    by (simp add: builtin_enabled)
  from strict_kill_verdicts a lenient_kill_verdicts b show ?thesis
    by (intro conjI)
qed

subsection \<open>Chaining of modified content\<close>










lemma RegExp_test_fresh:
  assumes "lastIndex regexp = 0"
  shows "fst (RegExp_test regexp s) = rx_test (source regexp) s"
    and "(snd (RegExp_test regexp s))\<lparr>lastIndex := 0\<rparr> = regexp"
  using assms
  by (auto simp: RegExp_test_def rx_test_def position_at_def split: option.splits)

lemma RegExp_test_fresh_False:
  assumes "lastIndex regexp = 0" and "\<not> rx_test (source regexp) s"
  shows "RegExp_test regexp s = (False, regexp)"
  using assms
  by (auto simp: RegExp_test_def rx_test_def position_at_def split: option.splits)


lemma redact_sensitive_fresh:
  assumes "\<forall>p \<in> set patterns. lastIndex p = 0"
  shows "redact_sensitive patterns c m h =
           (foldl (\<lambda>m r. if rx_test r c then replace_from r ''[REDACTED]'' None m else m) m
              (map source patterns),
            h \<or> list_ex (\<lambda>r. rx_test r c) (map source patterns),
            patterns)"
  using assms
proof (induction patterns arbitrary: m h)
  case Nil
  then show ?case by simp
next
  case (Cons p patterns)
  from Cons.prems have p0: "lastIndex p = 0" and rest: "\<forall>p \<in> set patterns. lastIndex p = 0"
    by simp_all
  obtain hit p' where t: "RegExp_test p c = (hit, p')"
    by (cases "RegExp_test p c")
  from RegExp_test_fresh[OF p0, of c] t
  have hit: "hit = rx_test (source p) c" and p': "p'\<lparr>lastIndex := 0\<rparr> = p"
    by simp_all
  have src: "source p' = source p"
    using RegExp_test_source[of p c] t by simp
  show ?case
  proof (cases hit)
    case True
    then show ?thesis
      using t hit p' src Cons.IH[OF rest] by (simp add: String_replace_def)
  next
    case False
    with hit have "\<not> rx_test (source p) c" by simp
    from RegExp_test_fresh_False[OF p0 this] t have "p' = p" by simp
    then show ?thesis
      using t hit False Cons.IH[OF rest] by simp
  qed
qed

lemma fresh_patterns:
  "map source patterns = rs \<Longrightarrow> \<forall>p \<in> set patterns. lastIndex p = 0 \<Longrightarrow>
     patterns = map new_RegExp rs"
proof (induction patterns arbitrary: rs)
  case Nil
  then show ?case by simp
next
  case (Cons p patterns)
  then show ?case by (cases p) (auto simp: new_RegExp_def)
qed

lemma ContentSafety_checkInput_sensitive_fresh:
  assumes "\<forall>p \<in> set (sensitivePatterns this). lastIndex p = 0"
  shows "sensitivePatterns (snd (ContentSafety_checkInput c ctx this)) = sensitivePatterns this"
  using redact_sensitive_fresh[OF assms, of c c False]
  by (simp add: ContentSafety_checkInput_def split_beta split: bool.splits prod.splits)













subsection \<open>Repeated calls of the content safety rule\<close>

text \<open>
  C10, refuted by the code. \<open>checkInput\<close> of a freshly constructed content safety rule,
  called on the payload \<open>kill\<close>, returns \<open>block\<close> with severity \<open>high\<close> and leaves
  \<open>lastIndex = 4\<close> in the first harmful pattern, a regular expression with the global
  flag. The next call with the same payload and context, nothing in between, starts that
  pattern's search at index 4, finds nothing, and returns \<open>allow\<close> with severity \<open>low\<close>.
\<close>

theorem ContentSafety_checkInput_repeated:
  "action (fst (ContentSafety_checkInput ''kill'' free_user new_ContentSafetyGuardrail)) = Block \<and>
   severity (fst (ContentSafety_checkInput ''kill'' free_user new_ContentSafetyGuardrail)) = High \<and>
   map lastIndex (harmfulPatterns
     (snd (ContentSafety_checkInput ''kill'' free_user new_ContentSafetyGuardrail))) =
     [4, 0, 0, 0] \<and>
   action (fst (ContentSafety_checkInput ''kill'' free_user
     (snd (ContentSafety_checkInput ''kill'' free_user new_ContentSafetyGuardrail)))) = Allow \<and>
   severity (fst (ContentSafety_checkInput ''kill'' free_user
     (snd (ContentSafety_checkInput ''kill'' free_user new_ContentSafetyGuardrail)))) = Low"
  by code_simp

end
